theory Spec2Isabelle
  imports Main "HOL-Library.AList"
begin

section \<open>Data model\<close>

text \<open>
  The account manager of \<open>src/account/account-manager.ts\<close>.  Account ids are strings.
  A key pair is its public and its secret part.  An exception of the source is a value
  \<open>Error msg\<close>, carrying the message.
\<close>

type_synonym AccountId = string
type_synonym AccountShortName = string

datatype KeyPair = KeyPair (getPublicKey: string) (secretKey: string)

datatype error = Error string

text \<open>The action kinds a transaction accumulates (section 2 of the specification).\<close>

datatype Action =
    CreateAccount
  | Transfer nat
  | DeployContract string
  | FunctionCall string
  | AddKey string
  | DeleteKey string
  | DeleteAccount AccountId

text \<open>
  The status of a \<open>FinalExecutionOutcome\<close> is either one of the basic status strings
  or an object whose \<open>SuccessValue\<close> and \<open>Failure\<close> members may each be undefined.
\<close>

datatype FinalExecutionStatus =
    StatusBasic string
  | StatusObject (SuccessValue: "string option") (Failure: "string option")

record FinalExecutionOutcome =
  status :: FinalExecutionStatus

text \<open>
  \<open>Transaction\<close> is the builder base class; \<open>ManagedTransaction\<close> extends it with the
  private \<open>delete\<close> flag.
\<close>

record Transaction =
  senderId :: AccountId
  receiverId :: AccountId
  actions :: "Action list"

record ManagedTransaction = Transaction +
  delete :: bool

datatype Variant = SandboxManager | TestnetManager | TestnetSubaccountManager

record ParsedPath =
  name :: string
  ext :: string

text \<open>
  The state a manager works on: its own fields (\<open>accountsCreated\<close>, \<open>subAccount\<close>), the
  configuration \<open>near.config\<close> (\<open>network\<close>, \<open>rootAccount\<close>), the key store, the validator
  key file of the sandbox home directory, and the state \<open>chainState\<close> of the remote chain.
  The key store keeps its entries in the order \<open>getAccounts\<close> returns them.
  \<open>submitted\<close> lists the requests handed to \<open>signAndSendTransaction\<close>, oldest first:
  signer, receiver and actions.  \<open>seed\<close> counts the draws from the random source.
\<close>

record 'c World =
  variant :: Variant
  network :: string
  rootAccount :: "AccountId option"
  subAccount :: AccountId
  keyStore :: "((string \<times> AccountId) \<times> KeyPair) list"
  validatorKeyFile :: "KeyPair option"
  accountsCreated :: "(AccountId \<times> AccountShortName) list"
  chainState :: 'c
  submitted :: "(AccountId \<times> AccountId \<times> Action list) list"
  seed :: nat

text \<open>
  The collaborators of section 6 of the specification, which the manager only calls:
  the chain RPC provider (\<open>signAndSendTransaction\<close>, which is given the key the signer
  finds for the sender, \<open>accountExists\<close>, \<open>account_balance\<close>), the account-creation
  service, the random sources, and the identification of the caller's file.
\<close>

record 'c Collaborators =
  signAndSendTransaction ::
    "'c \<Rightarrow> KeyPair option \<Rightarrow> AccountId \<Rightarrow> AccountId \<Rightarrow> Action list
       \<Rightarrow> (error + FinalExecutionOutcome) \<times> 'c"
  accountExists :: "'c \<Rightarrow> AccountId \<Rightarrow> bool"
  account_balance :: "'c \<Rightarrow> AccountId \<Rightarrow> error + nat"
  creator_createAccount :: "'c \<Rightarrow> AccountId \<Rightarrow> string \<Rightarrow> (error + unit) \<times> 'c"
  randomAccountId :: "nat \<Rightarrow> string option \<Rightarrow> string option \<Rightarrow> AccountId"
  fromRandom :: "nat \<Rightarrow> KeyPair"
  findCallerFile :: string
  path_parse :: "string \<Rightarrow> ParsedPath"

section \<open>Asynchronous calls\<close>

text \<open>
  An asynchronous method is a function from the state to its result, an error when it
  throws, and the state it leaves.  \<open>await m f\<close> continues with \<open>f\<close> when \<open>m\<close> returns
  and stops with the state \<open>m\<close> left when \<open>m\<close> throws.
\<close>

definition await ::
  "('s \<Rightarrow> (error + 'a) \<times> 's) \<Rightarrow> ('a \<Rightarrow> 's \<Rightarrow> (error + 'b) \<times> 's) \<Rightarrow> 's \<Rightarrow> (error + 'b) \<times> 's" where
  "await m f s = (case m s of (Inl e, s') \<Rightarrow> (Inl e, s') | (Inr a, s') \<Rightarrow> f a s')"

text \<open>
  \<open>Promise.all\<close> over tasks that were all started: every task runs, and the result is
  the list of the results, or the rejection of a task that threw.  The tasks are run in
  list order here; the source leaves their interleaving open.
\<close>

fun promise_all :: "('s \<Rightarrow> (error + 'a) \<times> 's) list \<Rightarrow> 's \<Rightarrow> (error + 'a list) \<times> 's" where
  "promise_all [] s = (Inr [], s)"
| "promise_all (t # ts) s =
     (case t s of (r, s') \<Rightarrow>
        (case promise_all ts s' of (rs, s'') \<Rightarrow>
           (case r of
              Inl e \<Rightarrow> (Inl e, s'')
            | Inr a \<Rightarrow> (case rs of Inl e' \<Rightarrow> (Inl e', s'') | Inr as \<Rightarrow> (Inr (a # as), s'')))))"

section \<open>String helpers of the run-time library\<close>

definition startsWith :: "string \<Rightarrow> string \<Rightarrow> bool" where
  "startsWith s p = (take (length p) s = p)"

text \<open>
  \<open>String.prototype.replace\<close> with a string pattern: the first occurrence of the pattern
  is replaced, the rest of the string is kept.
\<close>

fun replace :: "string \<Rightarrow> string \<Rightarrow> string \<Rightarrow> string" where
  "replace [] pat rep = (if pat = [] then rep else [])"
| "replace (c # cs) pat rep =
     (if startsWith (c # cs) pat then rep @ drop (length pat) (c # cs)
      else c # replace cs pat rep)"

text \<open>\<open>name.split('.')[0]\<close>: the part before the first dot.\<close>

definition split_first :: "string \<Rightarrow> string" where
  "split_first s = takeWhile (\<lambda>c. c \<noteq> CHR ''.'') s"

text \<open>
  Modelled from the spec: \<open>toYocto\<close> of \<open>src/utils\<close>, which is not part of the sources
  at hand, converts a number of tokens to the smallest unit, \<open>10^24\<close> to the token.
\<close>

definition toYocto :: "nat \<Rightarrow> nat" where
  "toYocto n = n * 10 ^ 24"

section \<open>AccountManager\<close>

subsection \<open>Getters\<close>

definition networkId :: "'c World \<Rightarrow> string" where
  "networkId w = network w"

text \<open>
  \<open>near.config.rootAccount!\<close>: the assertion is not checked at run time; an unset root
  reads as \<open>undefined\<close>, which the key store and every template render as that word.
\<close>

definition config_rootAccount :: "'c World \<Rightarrow> AccountId" where
  "config_rootAccount w = (case rootAccount w of Some r \<Rightarrow> r | None \<Rightarrow> ''undefined'')"

text \<open>\<open>rootAccountId\<close> is overridden by \<open>TestnetSubaccountManager\<close>.\<close>

definition rootAccountId :: "'c World \<Rightarrow> AccountId" where
  "rootAccountId w =
     (if variant w = TestnetSubaccountManager then subAccount w else config_rootAccount w)"

definition realRoot :: "'c World \<Rightarrow> AccountId" where
  "realRoot w = config_rootAccount w"

subsection \<open>Key store\<close>

text \<open>
  The key store is the list of its entries, keyed by network and account id: \<open>setKey\<close>
  replaces the entry of a key in its place or adds one at the end, \<open>removeKey\<close> drops it.
  Its operations are taken not to fail.
\<close>

definition keyStore_getKey :: "'c World \<Rightarrow> string \<Rightarrow> AccountId \<Rightarrow> KeyPair option" where
  "keyStore_getKey w net accountId = map_of (keyStore w) (net, accountId)"

definition keyStore_setKey :: "string \<Rightarrow> AccountId \<Rightarrow> KeyPair \<Rightarrow> 'c World \<Rightarrow> 'c World" where
  "keyStore_setKey net accountId key w =
     w\<lparr>keyStore := AList.update (net, accountId) key (keyStore w)\<rparr>"

definition keyStore_removeKey :: "string \<Rightarrow> AccountId \<Rightarrow> 'c World \<Rightarrow> 'c World" where
  "keyStore_removeKey net accountId w =
     w\<lparr>keyStore := AList.delete (net, accountId) (keyStore w)\<rparr>"

definition keyStore_getAccounts :: "'c World \<Rightarrow> string \<Rightarrow> AccountId list" where
  "keyStore_getAccounts w net = map (snd \<circ> fst) (filter (\<lambda>e. fst (fst e) = net) (keyStore w))"

definition getKey :: "'c World \<Rightarrow> AccountId \<Rightarrow> KeyPair option" where
  "getKey w accountId = keyStore_getKey w (networkId w) accountId"

text \<open>\<open>setKey\<close> stores the given key, or a new random one, and returns the stored key.\<close>

definition setKey ::
  "'c Collaborators \<Rightarrow> AccountId \<Rightarrow> KeyPair option \<Rightarrow> 'c World \<Rightarrow> KeyPair \<times> 'c World" where
  "setKey P accountId keyPair w =
     (case keyPair of
        Some key \<Rightarrow> (key, keyStore_setKey (networkId w) accountId key w)
      | None \<Rightarrow>
          (fromRandom P (seed w),
           keyStore_setKey (networkId w) accountId (fromRandom P (seed w))
             (w\<lparr>seed := Suc (seed w)\<rparr>)))"

definition removeKey :: "AccountId \<Rightarrow> 'c World \<Rightarrow> 'c World" where
  "removeKey accountId w = keyStore_removeKey (networkId w) accountId w"

definition deleteKey :: "AccountId \<Rightarrow> 'c World \<Rightarrow> 'c World" where
  "deleteKey account_id w = keyStore_removeKey (networkId w) account_id w"

definition getRootKey :: "'c Collaborators \<Rightarrow> 'c World \<Rightarrow> KeyPair \<times> 'c World" where
  "getRootKey P w =
     (case getKey w (rootAccountId w) of
        None \<Rightarrow> setKey P (rootAccountId w) None w
      | Some keyPair \<Rightarrow> (keyPair, w))"

subsection \<open>Provider queries\<close>

definition balance :: "'c Collaborators \<Rightarrow> AccountId \<Rightarrow> 'c World \<Rightarrow> (error + nat) \<times> 'c World" where
  "balance P account w = (account_balance P (chainState w) account, w)"

definition exists_account :: "'c Collaborators \<Rightarrow> AccountId \<Rightarrow> 'c World \<Rightarrow> bool" where
  "exists_account P accountId w = accountExists P (chainState w) accountId"

subsection \<open>executeTransaction\<close>

text \<open>
  With a key pair given, the sender's stored key is read into \<open>oldKey\<close> and replaced.
  The request is then signed and sent.  When the send returns, the old key is set
  again if there was one; when the send throws, the method is left at once.
\<close>

definition executeTransaction ::
  "'c Collaborators \<Rightarrow> 't Transaction_scheme \<Rightarrow> KeyPair option \<Rightarrow> 'c World
     \<Rightarrow> (error + FinalExecutionOutcome) \<times> 'c World" where
  "executeTransaction P tx keyPair w =
     (let accountId = senderId tx;
          oldKey = (case keyPair of Some kp \<Rightarrow> getKey w accountId | None \<Rightarrow> None);
          w1 = (case keyPair of Some kp \<Rightarrow> snd (setKey P accountId (Some kp) w) | None \<Rightarrow> w);
          sent = signAndSendTransaction P (chainState w1) (getKey w1 accountId)
                   accountId (receiverId tx) (actions tx);
          w2 = w1\<lparr>chainState := snd sent,
                  submitted := submitted w1 @ [(accountId, receiverId tx, actions tx)]\<rparr>
      in case fst sent of
           Inl e \<Rightarrow> (Inl e, w2)
         | Inr outcome \<Rightarrow>
             (case oldKey of
                Some k \<Rightarrow> (Inr outcome, snd (setKey P accountId (Some k) w2))
              | None \<Rightarrow> (Inr outcome, w2)))"

subsection \<open>The tracking table\<close>

definition addAccountCreated :: "AccountId \<Rightarrow> AccountId \<Rightarrow> 'c World \<Rightarrow> 'c World" where
  "addAccountCreated account sender w =
     (let short = replace account (''.'' @ sender) ''''
      in w\<lparr>accountsCreated := AList.update account short (accountsCreated w)\<rparr>)"

section \<open>ManagedTransaction\<close>

text \<open>
  Modelled from the spec: the base class \<open>Transaction\<close> of \<open>src/runtime/transaction\<close> is
  not part of the sources at hand.  Its builder methods append one action to the ordered
  list and leave sender and receiver as they are.
\<close>

definition Transaction_append :: "Action \<Rightarrow> 't Transaction_scheme \<Rightarrow> 't Transaction_scheme" where
  "Transaction_append a tx = tx\<lparr>actions := actions tx @ [a]\<rparr>"

definition createTransaction :: "AccountId \<Rightarrow> AccountId \<Rightarrow> ManagedTransaction" where
  "createTransaction sender receiver =
     \<lparr>senderId = sender, receiverId = receiver, actions = [], delete = False\<rparr>"

definition ManagedTransaction_createAccount ::
  "ManagedTransaction \<Rightarrow> 'c World \<Rightarrow> ManagedTransaction \<times> 'c World" where
  "ManagedTransaction_createAccount tx w =
     (Transaction_append CreateAccount tx, addAccountCreated (receiverId tx) (senderId tx) w)"

definition ManagedTransaction_deleteAccount ::
  "AccountId \<Rightarrow> ManagedTransaction \<Rightarrow> ManagedTransaction" where
  "ManagedTransaction_deleteAccount beneficiaryId tx =
     Transaction_append (DeleteAccount beneficiaryId) (tx\<lparr>delete := True\<rparr>)"

text \<open>\<open>status.SuccessValue !== undefined\<close>; a status string has no such member.\<close>

definition hasSuccessValue :: "FinalExecutionStatus \<Rightarrow> bool" where
  "hasSuccessValue st = (case st of StatusBasic s \<Rightarrow> False | StatusObject v f \<Rightarrow> v \<noteq> None)"

definition signAndSend ::
  "'c Collaborators \<Rightarrow> ManagedTransaction \<Rightarrow> KeyPair option \<Rightarrow> 'c World
     \<Rightarrow> (error + FinalExecutionOutcome) \<times> 'c World" where
  "signAndSend P tx keyPair =
     await (executeTransaction P tx keyPair) (\<lambda>executionResult w.
       if hasSuccessValue (status executionResult) \<and> delete tx
       then (Inr executionResult, deleteKey (receiverId tx) w)
       else (Inr executionResult, w))"

section \<open>The account facade\<close>

text \<open>
  Modelled from the spec: the class \<open>Account\<close> of \<open>src/account/account\<close> is not part of
  the sources at hand.  Section 4.3 of the specification describes it as a handle of an
  account id and its manager whose operations are delegations: \<open>delete\<close> builds and
  sends a delete-account transaction, \<open>createAccount\<close> builds and sends a create-account
  transaction, \<open>balance\<close> asks the manager, \<open>makeSubAccount\<close> concatenates.
\<close>

definition Account_delete ::
  "'c Collaborators \<Rightarrow> AccountId \<Rightarrow> AccountId \<Rightarrow> 'c World
     \<Rightarrow> (error + FinalExecutionOutcome) \<times> 'c World" where
  "Account_delete P accountId beneficiaryId =
     signAndSend P
       (ManagedTransaction_deleteAccount beneficiaryId (createTransaction accountId accountId))
       None"

definition Account_balance ::
  "'c Collaborators \<Rightarrow> AccountId \<Rightarrow> 'c World \<Rightarrow> (error + nat) \<times> 'c World" where
  "Account_balance P accountId = balance P accountId"

definition makeSubAccount :: "AccountId \<Rightarrow> string \<Rightarrow> AccountId" where
  "makeSubAccount accountId shortName = shortName @ ''.'' @ accountId"

definition Account_createAccount ::
  "'c Collaborators \<Rightarrow> AccountId \<Rightarrow> AccountId \<Rightarrow> nat \<Rightarrow> 'c World
     \<Rightarrow> (error + AccountId) \<times> 'c World" where
  "Account_createAccount P self accountId initialBalance w =
     (case ManagedTransaction_createAccount (createTransaction self accountId) w of
        (tx, w1) \<Rightarrow>
          await (signAndSend P (Transaction_append (Transfer initialBalance) tx) None)
            (\<lambda>outcome w2. (Inr accountId, w2)) w1)"

section \<open>AccountManager, continued\<close>

definition deleteAccount ::
  "'c Collaborators \<Rightarrow> AccountId \<Rightarrow> AccountId \<Rightarrow> 'c World \<Rightarrow> (error + unit) \<times> 'c World" where
  "deleteAccount P accountId beneficiaryId =
     await (Account_delete P accountId beneficiaryId) (\<lambda>outcome w. (Inr (), w))"

text \<open>
  \<open>cleanup\<close> is empty in the base class; only \<open>TestnetSubaccountManager\<close> overrides it,
  deleting every key of \<open>accountsCreated\<close> with the real root as beneficiary.
\<close>

definition cleanup :: "'c Collaborators \<Rightarrow> 'c World \<Rightarrow> (error + unit) \<times> 'c World" where
  "cleanup P w =
     (if variant w = TestnetSubaccountManager
      then await
             (promise_all
                (map (\<lambda>accountId. Account_delete P accountId (realRoot w)) (map fst (accountsCreated w))))
             (\<lambda>outcomes w'. (Inr (), w')) w
      else (Inr (), w))"

section \<open>Random sources and the key file\<close>

text \<open>A call of \<open>randomAccountId\<close> with its optional prefix and suffix.\<close>

definition random_id ::
  "'c Collaborators \<Rightarrow> string option \<Rightarrow> string option \<Rightarrow> 'c World \<Rightarrow> AccountId \<times> 'c World" where
  "random_id P prefix suffix w =
     (randomAccountId P (seed w) prefix suffix, w\<lparr>seed := Suc (seed w)\<rparr>)"

text \<open>
  Modelled from the spec: \<open>getKeyFromFile\<close> of \<open>src/runtime/utils\<close> is not part of the
  sources at hand.  It is taken to be the function of that name in
  \<open>src/runtime/runtime.ts\<close>: the key of the file when the file can be read, and else a
  new random key, which is written to the file.
\<close>

definition getKeyFromFile :: "'c Collaborators \<Rightarrow> 'c World \<Rightarrow> KeyPair \<times> 'c World" where
  "getKeyFromFile P w =
     (case validatorKeyFile w of
        Some key \<Rightarrow> (key, w)
      | None \<Rightarrow>
          (fromRandom P (seed w),
           w\<lparr>validatorKeyFile := Some (fromRandom P (seed w)), seed := Suc (seed w)\<rparr>))"

section \<open>TestnetManager\<close>

definition findAccountsWithPrefix ::
  "'c Collaborators \<Rightarrow> string \<Rightarrow> string \<Rightarrow> 'c World \<Rightarrow> AccountId list \<times> 'c World" where
  "findAccountsWithPrefix P prefix net w =
     (let accounts = keyStore_getAccounts w net;
          paths = filter (\<lambda>f. startsWith f prefix) accounts
      in if length paths > 0 then (paths, w)
         else (case random_id P (Some prefix) (Some []) w of (fresh, w') \<Rightarrow> ([fresh], w')))"

definition TestnetManager_createAccount ::
  "'c Collaborators \<Rightarrow> AccountId \<Rightarrow> string \<Rightarrow> 'c World \<Rightarrow> (error + AccountId) \<times> 'c World" where
  "TestnetManager_createAccount P accountId pubKey w =
     (case creator_createAccount P (chainState w) accountId pubKey of
        (Inl e, c) \<Rightarrow> (Inl e, w\<lparr>chainState := c\<rparr>)
      | (Inr u, c) \<Rightarrow> (Inr accountId, w\<lparr>chainState := c\<rparr>))"

definition addFunds :: "'c Collaborators \<Rightarrow> 'c World \<Rightarrow> (error + unit) \<times> 'c World" where
  "addFunds P w =
     (case random_id P None None w of (temporaryId, w1) \<Rightarrow>
        (case getRootKey P w1 of (keyPair, w2) \<Rightarrow>
           await (TestnetManager_createAccount P temporaryId (getPublicKey keyPair))
             (\<lambda>account w4.
                await (Account_delete P account (rootAccountId w4)) (\<lambda>outcome w5. (Inr (), w5)) w4)
             (keyStore_setKey (networkId w2) temporaryId keyPair w2)))"

text \<open>\<open>if (this.near.config.rootAccount)\<close>: unset and the empty string are both falsy.\<close>

definition rootAccount_configured :: "'c World \<Rightarrow> bool" where
  "rootAccount_configured w = (case rootAccount w of Some r \<Rightarrow> r \<noteq> [] | None \<Rightarrow> False)"

definition derived_prefix :: "ParsedPath \<Rightarrow> string" where
  "derived_prefix p = (if CHR ''.'' \<in> set (name p) then split_first (name p) else name p)"

text \<open>
  \<open>accounts.shift()\<close> takes the first account; \<open>findAccountsWithPrefix\<close> never returns
  an empty list, on which \<open>shift\<close> would give \<open>undefined\<close>.
\<close>

definition initRootAccount :: "'c Collaborators \<Rightarrow> 'c World \<Rightarrow> (error + unit) \<times> 'c World" where
  "initRootAccount P w =
     (if rootAccount_configured w then (Inr (), w)
      else
        (let fileName = findCallerFile P; p = path_parse P fileName
         in if ext p \<in> {''.ts'', ''.js''}
            then (case findAccountsWithPrefix P (derived_prefix p) (networkId w) w of
                    (accounts, w1) \<Rightarrow>
                      (case accounts of
                         [] \<Rightarrow> (Inr (), w1\<lparr>rootAccount := None\<rparr>)
                       | accountId # rest \<Rightarrow>
                           await (promise_all (map (\<lambda>acc. deleteAccount P acc accountId) rest))
                             (\<lambda>done w2. (Inr (), w2\<lparr>rootAccount := Some accountId\<rparr>)) w1))
            else (Inl (Error (''Bad filename/account name passed: '' @ fileName)), w)))"

definition createAndFundAccount :: "'c Collaborators \<Rightarrow> 'c World \<Rightarrow> (error + unit) \<times> 'c World" where
  "createAndFundAccount P =
     await (initRootAccount P) (\<lambda>u w1.
       await
         (\<lambda>w. if \<not> accountExists P (chainState w) (rootAccountId w1)
              then (case getRootKey P w of (keyPair, w2) \<Rightarrow>
                      await (TestnetManager_createAccount P (rootAccountId w1) (getPublicKey keyPair))
                        (\<lambda>account w3. (Inr (), w3))
                        (keyStore_setKey (networkId w2) (rootAccountId w1) keyPair w2))
              else (Inr (), w))
         (\<lambda>u w4.
            await (Account_balance P (rootAccountId w4))
              (\<lambda>available w5.
                 if available < toYocto 1000 then addFunds P w5 else (Inr (), w5)) w4)
         w1)"

definition TestnetManager_init :: "'c Collaborators \<Rightarrow> 'c World \<Rightarrow> (error + unit) \<times> 'c World" where
  "TestnetManager_init P = await (createAndFundAccount P) (\<lambda>u w. (Inr (), w))"

section \<open>TestnetSubaccountManager\<close>

definition TestnetSubaccountManager_init ::
  "'c Collaborators \<Rightarrow> 'c World \<Rightarrow> (error + unit) \<times> 'c World" where
  "TestnetSubaccountManager_init P w =
     (case random_id P (Some []) (Some []) w of (r, w1) \<Rightarrow>
        (let w2 = w1\<lparr>subAccount := makeSubAccount (realRoot w) r\<rparr>
         in await (Account_createAccount P (realRoot w2) (subAccount w2) (toYocto 50))
              (\<lambda>account w3. (Inr (), w3)) w2))"

section \<open>SandboxManager\<close>

definition SandboxManager_init :: "'c Collaborators \<Rightarrow> 'c World \<Rightarrow> (error + unit) \<times> 'c World" where
  "SandboxManager_init P w =
     (if getKey w (rootAccountId w) = None
      then (case getKeyFromFile P w of (key, w1) \<Rightarrow>
              (Inr (), snd (setKey P (rootAccountId w1) (Some key) w1)))
      else (Inr (), w))"

section \<open>The factory\<close>

definition init :: "'c Collaborators \<Rightarrow> 'c World \<Rightarrow> (error + unit) \<times> 'c World" where
  "init P w =
     (case variant w of
        SandboxManager \<Rightarrow> SandboxManager_init P w
      | TestnetManager \<Rightarrow> TestnetManager_init P w
      | TestnetSubaccountManager \<Rightarrow> TestnetSubaccountManager_init P w)"

definition bad_network_message :: "string \<Rightarrow> string" where
  "bad_network_message net =
     ''Bad network id: '' @ net @ '' expected '' @ [CHR 0x22] @ ''testnet'' @ [CHR 0x22]
       @ '' or '' @ [CHR 0x22] @ ''sandbox'' @ [CHR 0x22]"

text \<open>
  \<open>AccountManager.create\<close>: the manager is constructed with an empty tracking table on the
  given configuration and surroundings, then initialised; an unknown network throws
  before any manager is constructed.
\<close>

definition AccountManager_create ::
  "'c Collaborators \<Rightarrow> 'c World \<Rightarrow> (error + unit) \<times> 'c World" where
  "AccountManager_create P w =
     (if network w = ''sandbox''
      then init P (w\<lparr>variant := SandboxManager, accountsCreated := []\<rparr>)
      else if network w = ''testnet''
      then init P (w\<lparr>variant := TestnetManager, accountsCreated := []\<rparr>)
      else (Inl (Error (bad_network_message (network w))), w))"

section \<open>Transactions made by the builder\<close>

text \<open>
  The managed transactions a caller can hold: a new one from \<open>createTransaction\<close>, then
  any chain of builder calls.  A delete-account action enters only through
  \<open>deleteAccount\<close>, which \<open>ManagedTransaction\<close> overrides.
\<close>

inductive built :: "ManagedTransaction \<Rightarrow> bool" where
  built_new: "built (createTransaction sender receiver)"
| built_append: "built tx \<Longrightarrow> (\<forall>b. a \<noteq> DeleteAccount b) \<Longrightarrow> built (Transaction_append a tx)"
| built_delete: "built tx \<Longrightarrow> built (ManagedTransaction_deleteAccount b tx)"

section \<open>A chain and a creation service to run the manager against\<close>

text \<open>
  Modelled from the spec: the chain, its provider and the account-creation service are
  collaborators outside the sources at hand.  Following sections 4.1 (step 7) and 6 of
  the specification, the chain is a ledger of the available balance of every account
  that exists; the creation service registers a new account with a fixed grant; deleting
  an account removes it and moves its balance to the beneficiary, if that exists.  The
  submission throws when the signer has no key or does not exist, and returns a failure
  status when an action cannot be applied.  Fees are left out.
\<close>

type_synonym Ledger = "(AccountId \<times> nat) list"

definition apply_action :: "AccountId \<Rightarrow> AccountId \<Rightarrow> Action \<Rightarrow> Ledger \<Rightarrow> Ledger option" where
  "apply_action sender receiver a c =
     (case a of
        CreateAccount \<Rightarrow>
          (if map_of c receiver \<noteq> None then None else Some (AList.update receiver 0 c))
      | Transfer n \<Rightarrow>
          (case map_of c sender of
             None \<Rightarrow> None
           | Some s \<Rightarrow>
               (if s < n then None
                else (case map_of (AList.update sender (s - n) c) receiver of
                        None \<Rightarrow> None
                      | Some r \<Rightarrow>
                          Some (AList.update receiver (r + n) (AList.update sender (s - n) c)))))
      | DeleteAccount beneficiary \<Rightarrow>
          (case map_of c receiver of
             None \<Rightarrow> None
           | Some bal \<Rightarrow>
               (case map_of (AList.delete receiver c) beneficiary of
                  None \<Rightarrow> Some (AList.delete receiver c)
                | Some b \<Rightarrow> Some (AList.update beneficiary (b + bal) (AList.delete receiver c))))
      | _ \<Rightarrow> Some c)"

fun apply_actions :: "AccountId \<Rightarrow> AccountId \<Rightarrow> Action list \<Rightarrow> Ledger \<Rightarrow> Ledger option" where
  "apply_actions sender receiver [] c = Some c"
| "apply_actions sender receiver (a # as) c =
     (case apply_action sender receiver a c of
        None \<Rightarrow> None
      | Some c' \<Rightarrow> apply_actions sender receiver as c')"

definition ledger_signAndSend ::
  "Ledger \<Rightarrow> KeyPair option \<Rightarrow> AccountId \<Rightarrow> AccountId \<Rightarrow> Action list
     \<Rightarrow> (error + FinalExecutionOutcome) \<times> Ledger" where
  "ledger_signAndSend c key sender receiver as =
     (case key of
        None \<Rightarrow> (Inl (Error ''no key for the signer''), c)
      | Some k \<Rightarrow>
          (if map_of c sender = None then (Inl (Error ''the signer does not exist''), c)
           else (case apply_actions sender receiver as c of
                   None \<Rightarrow> (Inr \<lparr>status = StatusObject None (Some ''ActionError'')\<rparr>, c)
                 | Some c' \<Rightarrow> (Inr \<lparr>status = StatusObject (Some []) None\<rparr>, c'))))"

definition ledger_createAccount ::
  "nat \<Rightarrow> Ledger \<Rightarrow> AccountId \<Rightarrow> string \<Rightarrow> (error + unit) \<times> Ledger" where
  "ledger_createAccount grant c accountId pubKey =
     (if map_of c accountId \<noteq> None then (Inl (Error ''the account exists''), c)
      else (Inr (), AList.update accountId grant c))"

definition ledger_balance :: "Ledger \<Rightarrow> AccountId \<Rightarrow> error + nat" where
  "ledger_balance c accountId =
     (case map_of c accountId of
        None \<Rightarrow> Inl (Error ''the account does not exist'')
      | Some b \<Rightarrow> Inr b)"

text \<open>
  The collaborators over the ledger, for a creation service that grants \<open>grant\<close>.  The
  random sources count up; the caller is the script \<open>foo.spec.ts\<close>.
\<close>

definition faucet :: "nat \<Rightarrow> Ledger Collaborators" where
  "faucet grant =
     \<lparr>signAndSendTransaction = ledger_signAndSend,
      accountExists = (\<lambda>c accountId. map_of c accountId \<noteq> None),
      account_balance = ledger_balance,
      creator_createAccount = ledger_createAccount grant,
      randomAccountId = (\<lambda>n prefix suffix.
         (case prefix of Some p \<Rightarrow> p | None \<Rightarrow> ''dev-'') @ replicate (Suc n) (CHR ''7'')
           @ (case suffix of Some s \<Rightarrow> s | None \<Rightarrow> [])),
      fromRandom = (\<lambda>n. KeyPair (''pk'' @ replicate n (CHR ''0'')) (''sk'' @ replicate n (CHR ''0''))),
      findCallerFile = ''/tests/foo.spec.ts'',
      path_parse = (\<lambda>f. \<lparr>name = ''foo.spec'', ext = ''.ts''\<rparr>)\<rparr>"

definition testnet_world :: "Ledger World" where
  "testnet_world =
     \<lparr>variant = TestnetManager, network = ''testnet'', rootAccount = None, subAccount = [],
      keyStore = [], validatorKeyFile = None, accountsCreated = [], chainState = [],
      submitted = [], seed = 0\<rparr>"

text \<open>A transfer from Alice to Bob, an old and a temporary key, and worlds to run it in.\<close>

definition alice_tx :: Transaction where
  "alice_tx = \<lparr>senderId = ''alice.testnet'', receiverId = ''bob.testnet'', actions = [Transfer 1]\<rparr>"

definition old_key :: KeyPair where
  "old_key = KeyPair ''pk-old'' ''sk-old''"

definition temporary_key :: KeyPair where
  "temporary_key = KeyPair ''pk-tmp'' ''sk-tmp''"

definition alice_world :: "Ledger World" where
  "alice_world = testnet_world\<lparr>keyStore := [((''testnet'', ''alice.testnet''), old_key)]\<rparr>"

definition funded_world :: "Ledger World" where
  "funded_world = testnet_world\<lparr>chainState := [(''alice.testnet'', 5), (''bob.testnet'', 0)]\<rparr>"

text \<open>
  Deleting the account \<open>tmp.testnet\<close> in favour of the root, in a world where the account
  is on the chain and in one where it is not; and a deletion sent by the root for an
  account that is not on the chain.
\<close>

definition delete_tx :: ManagedTransaction where
  "delete_tx = ManagedTransaction_deleteAccount ''root.testnet''
                 (createTransaction ''tmp.testnet'' ''tmp.testnet'')"

definition foreign_delete_tx :: ManagedTransaction where
  "foreign_delete_tx = ManagedTransaction_deleteAccount ''root.testnet''
                         (createTransaction ''root.testnet'' ''lost.testnet'')"

definition tmp_world :: "Ledger World" where
  "tmp_world = testnet_world
     \<lparr>keyStore := [((''testnet'', ''tmp.testnet''), old_key), ((''testnet'', ''root.testnet''), old_key),
                   ((''testnet'', ''lost.testnet''), old_key)],
      chainState := [(''tmp.testnet'', 5), (''root.testnet'', 10)]\<rparr>"

definition gone_world :: "Ledger World" where
  "gone_world = testnet_world\<lparr>keyStore := [((''testnet'', ''tmp.testnet''), old_key)]\<rparr>"

section \<open>The operations of a manager\<close>

text \<open>
  The methods of the manager classes and of the managed transaction that change state,
  as one type, and the state each leaves, whether it returns or throws.  \<open>Op_init\<close> is
  the \<open>init\<close> of the variant at hand.  The other methods only read (\<open>getAccount\<close>,
  \<open>getKey\<close>, \<open>balance\<close>, \<open>exists\<close>, \<open>createTransaction\<close> and the getters) or make a new
  manager with a tracking table of its own (\<open>createFrom\<close>).
\<close>

datatype Operation =
    Op_deleteKey AccountId
  | Op_init
  | Op_setKey AccountId "KeyPair option"
  | Op_removeKey AccountId
  | Op_deleteAccount AccountId AccountId
  | Op_getRootKey
  | Op_executeTransaction Transaction "KeyPair option"
  | Op_addAccountCreated AccountId AccountId
  | Op_cleanup
  | Op_createAccount AccountId string
  | Op_addFunds
  | Op_createAndFundAccount
  | Op_initRootAccount
  | Op_builder_createAccount ManagedTransaction
  | Op_signAndSend ManagedTransaction "KeyPair option"

definition perform :: "'c Collaborators \<Rightarrow> Operation \<Rightarrow> 'c World \<Rightarrow> 'c World" where
  "perform P op w =
     (case op of
        Op_deleteKey a \<Rightarrow> deleteKey a w
      | Op_init \<Rightarrow> snd (init P w)
      | Op_setKey a k \<Rightarrow> snd (setKey P a k w)
      | Op_removeKey a \<Rightarrow> removeKey a w
      | Op_deleteAccount a b \<Rightarrow> snd (deleteAccount P a b w)
      | Op_getRootKey \<Rightarrow> snd (getRootKey P w)
      | Op_executeTransaction tx k \<Rightarrow> snd (executeTransaction P tx k w)
      | Op_addAccountCreated a s \<Rightarrow> addAccountCreated a s w
      | Op_cleanup \<Rightarrow> snd (cleanup P w)
      | Op_createAccount a k \<Rightarrow> snd (TestnetManager_createAccount P a k w)
      | Op_addFunds \<Rightarrow> snd (addFunds P w)
      | Op_createAndFundAccount \<Rightarrow> snd (createAndFundAccount P w)
      | Op_initRootAccount \<Rightarrow> snd (initRootAccount P w)
      | Op_builder_createAccount tx \<Rightarrow> snd (ManagedTransaction_createAccount tx w)
      | Op_signAndSend tx k \<Rightarrow> snd (signAndSend P tx k w))"

text \<open>
  A function of the state that only reads what the manager itself holds: it does not
  see the key store, the chain, the requests sent, the random source or the key file.
\<close>

definition manager_field :: "('c World \<Rightarrow> 'x) \<Rightarrow> bool" where
  "manager_field I =
     (\<forall>w ks c t n f. I (w\<lparr>keyStore := ks\<rparr>) = I w \<and> I (w\<lparr>chainState := c\<rparr>) = I w \<and>
        I (w\<lparr>submitted := t\<rparr>) = I w \<and> I (w\<lparr>seed := n\<rparr>) = I w \<and>
        I (w\<lparr>validatorKeyFile := f\<rparr>) = I w)"

text \<open>A function of the state that does not see the configured root account either.\<close>

definition root_free :: "('c World \<Rightarrow> 'x) \<Rightarrow> bool" where
  "root_free I = (\<forall>w r. I (w\<lparr>rootAccount := r\<rparr>) = I w)"

text \<open>
  Worlds for the testnet manager: one with a root account configured, and the one
  \<open>init\<close> leaves from it when the creation service grants \<open>g\<close>; one whose key store
  holds accounts with the prefix \<open>foo\<close> of the caller's file; one of a sub-account
  manager that tracks two accounts; and configurations for other networks.
\<close>

definition configured_world :: "Ledger World" where
  "configured_world = testnet_world\<lparr>rootAccount := Some ''root.testnet''\<rparr>"

definition funded_root_world :: "nat \<Rightarrow> Ledger World" where
  "funded_root_world g = configured_world
     \<lparr>keyStore := [((''testnet'', ''root.testnet''), KeyPair ''pk'' ''sk'')],
      chainState := [(''root.testnet'', g + g)],
      submitted := [(''dev-77'', ''dev-77'', [DeleteAccount ''root.testnet''])],
      seed := 2\<rparr>"

definition foo_world :: "Ledger World" where
  "foo_world = testnet_world
     \<lparr>keyStore := [((''testnet'', ''foo1''), old_key), ((''testnet'', ''bar''), old_key),
                   ((''testnet'', ''foo2''), old_key), ((''sandbox'', ''foo0''), old_key)],
      chainState := [(''foo1'', 10), (''foo2'', 5)]\<rparr>"

definition sub_world :: "Ledger World" where
  "sub_world = testnet_world
     \<lparr>variant := TestnetSubaccountManager, rootAccount := Some ''root.testnet'',
      subAccount := ''sub.root.testnet'',
      accountsCreated := [(''a.sub.root.testnet'', ''a''), (''b.sub.root.testnet'', ''b'')]\<rparr>"

definition mainnet_world :: "Ledger World" where
  "mainnet_world = testnet_world\<lparr>network := ''mainnet''\<rparr>"

definition sandbox_world :: "Ledger World" where
  "sandbox_world = testnet_world\<lparr>network := ''sandbox'', rootAccount := Some ''test.near''\<rparr>"

section \<open>What the key-store operations leave unchanged\<close>

lemma setKey_frame [simp]:
  "network (snd (setKey P a k w)) = network w"
  "accountsCreated (snd (setKey P a k w)) = accountsCreated w"
  "submitted (snd (setKey P a k w)) = submitted w"
  "chainState (snd (setKey P a k w)) = chainState w"
  "rootAccount (snd (setKey P a k w)) = rootAccount w"
  "variant (snd (setKey P a k w)) = variant w"
  "subAccount (snd (setKey P a k w)) = subAccount w"
  by (simp_all add: setKey_def keyStore_setKey_def split: option.splits)

lemma getKey_setKey_Some [simp]:
  "getKey (snd (setKey P a (Some k) w)) b = (if b = a then Some k else getKey w b)"
  by (simp add: getKey_def setKey_def keyStore_getKey_def keyStore_setKey_def networkId_def
      AList.update_conv')

lemma getKey_frame [simp]:
  "getKey (w\<lparr>chainState := c\<rparr>) a = getKey w a"
  "getKey (w\<lparr>submitted := t\<rparr>) a = getKey w a"
  by (simp_all add: getKey_def keyStore_getKey_def networkId_def)

section \<open>executeTransaction and the temporary key\<close>

lemma executeTransaction_frame [simp]:
  "network (snd (executeTransaction P tx kp w)) = network w"
  "accountsCreated (snd (executeTransaction P tx kp w)) = accountsCreated w"
  "rootAccount (snd (executeTransaction P tx kp w)) = rootAccount w"
  "variant (snd (executeTransaction P tx kp w)) = variant w"
  "subAccount (snd (executeTransaction P tx kp w)) = subAccount w"
  by (simp_all add: executeTransaction_def Let_def split: option.splits sum.splits)

lemma executeTransaction_submitted [simp]:
  "submitted (snd (executeTransaction P tx kp w)) =
     submitted w @ [(senderId tx, receiverId tx, actions tx)]"
  by (simp add: executeTransaction_def Let_def split: option.splits sum.splits)

text \<open>
  When the send returns and a key was stored before, that key is stored again.
\<close>

lemma executeTransaction_restores_on_return:
  assumes "getKey w (senderId tx) = Some old"
    and "fst (executeTransaction P tx (Some keyPair) w) = Inr out"
  shows "getKey (snd (executeTransaction P tx (Some keyPair) w)) (senderId tx) = Some old"
  using assms by (simp add: executeTransaction_def Let_def split: sum.splits)

text \<open>When the send throws, the temporary key stays, whatever was stored before.\<close>

lemma executeTransaction_throw_leaves_temporary_key:
  assumes "fst (executeTransaction P tx (Some keyPair) w) = Inl e"
  shows "getKey (snd (executeTransaction P tx (Some keyPair) w)) (senderId tx) = Some keyPair"
  using assms by (simp add: executeTransaction_def Let_def split: sum.splits option.splits)

lemma getKey_executeTransaction_None:
  "getKey (snd (executeTransaction P tx None w)) a = getKey w a"
  by (simp add: executeTransaction_def Let_def split: sum.splits option.splits)

lemma getKey_executeTransaction_other:
  "a \<noteq> senderId tx \<Longrightarrow> getKey (snd (executeTransaction P tx kp w)) a = getKey w a"
  by (simp add: executeTransaction_def Let_def split: sum.splits option.splits)

lemma getKey_executeTransaction_remains:
  "getKey w a \<noteq> None \<Longrightarrow> getKey (snd (executeTransaction P tx kp w)) a \<noteq> None"
  by (simp add: executeTransaction_def Let_def split: sum.splits option.splits)

text \<open>
  C1, at a failing input.  Alice has the old key in the store, and the submission
  throws since her account is not on the chain.  The call throws, and the store then
  holds the temporary key for Alice, not the old one.
\<close>

theorem executeTransaction_throw_keeps_temporary_key:
  "getKey alice_world (senderId alice_tx) = Some old_key \<and>
   fst (executeTransaction (faucet 0) alice_tx (Some temporary_key) alice_world)
     = Inl (Error ''the signer does not exist'') \<and>
   getKey (snd (executeTransaction (faucet 0) alice_tx (Some temporary_key) alice_world))
     (senderId alice_tx) = Some temporary_key \<and>
   temporary_key \<noteq> old_key"
  by (simp add: executeTransaction_def Let_def alice_world_def alice_tx_def testnet_world_def
      faucet_def ledger_signAndSend_def old_key_def temporary_key_def getKey_def
      keyStore_getKey_def networkId_def setKey_def keyStore_setKey_def)

text \<open>
  C9.  When \<open>executeTransaction\<close> is called with a temporary key pair for a sender that has
  no stored key, the store holds the temporary key for the sender after the call, whether
  the send returned or threw: the key is neither removed nor replaced, and the stored key
  changes from absent to the temporary key.
\<close>

theorem executeTransaction_no_old_key:
  assumes "getKey w (senderId tx) = None"
  shows "getKey (snd (executeTransaction P tx (Some keyPair) w)) (senderId tx) = Some keyPair"
  using assms by (simp add: executeTransaction_def Let_def split: sum.splits)

theorem executeTransaction_no_old_key_witness:
  "getKey funded_world (senderId alice_tx) = None \<and>
   getKey (snd (executeTransaction (faucet 0) alice_tx (Some temporary_key) funded_world))
     (senderId alice_tx) = Some temporary_key"
proof -
  have h: "getKey funded_world (senderId alice_tx) = None"
    by (simp add: getKey_def keyStore_getKey_def funded_world_def testnet_world_def)
  show ?thesis
    using h executeTransaction_no_old_key [OF h, of "faucet 0" temporary_key] by simp
qed

section \<open>signAndSend and the key of a deleted account\<close>

lemma built_delete_iff:
  "built tx \<Longrightarrow> delete tx = (\<exists>b. DeleteAccount b \<in> set (actions tx))"
  by (induction rule: built.induct)
     (auto simp: createTransaction_def Transaction_append_def ManagedTransaction_deleteAccount_def)

lemma deleteKey_frame [simp]:
  "network (deleteKey a w) = network w"
  "accountsCreated (deleteKey a w) = accountsCreated w"
  "submitted (deleteKey a w) = submitted w"
  "chainState (deleteKey a w) = chainState w"
  "rootAccount (deleteKey a w) = rootAccount w"
  "variant (deleteKey a w) = variant w"
  "subAccount (deleteKey a w) = subAccount w"
  by (simp_all add: deleteKey_def keyStore_removeKey_def)

lemma getKey_deleteKey [simp]:
  "getKey (deleteKey a w) b = (if b = a then None else getKey w b)"
  by (simp add: getKey_def deleteKey_def keyStore_getKey_def keyStore_removeKey_def networkId_def
      AList.delete_conv')

lemma signAndSend_cases:
  "signAndSend P tx kp w =
     (case executeTransaction P tx kp w of
        (Inl e, w') \<Rightarrow> (Inl e, w')
      | (Inr out, w') \<Rightarrow>
          (Inr out,
           if hasSuccessValue (status out) \<and> delete tx then deleteKey (receiverId tx) w' else w'))"
  by (simp add: signAndSend_def await_def split: prod.splits sum.splits)

lemma signAndSend_frame [simp]:
  "network (snd (signAndSend P tx kp w)) = network w"
  "accountsCreated (snd (signAndSend P tx kp w)) = accountsCreated w"
  "rootAccount (snd (signAndSend P tx kp w)) = rootAccount w"
  "variant (snd (signAndSend P tx kp w)) = variant w"
  "subAccount (snd (signAndSend P tx kp w)) = subAccount w"
  "submitted (snd (signAndSend P tx kp w)) = submitted w @ [(senderId tx, receiverId tx, actions tx)]"
proof -
  obtain r w' where e: "executeTransaction P tx kp w = (r, w')"
    by (cases "executeTransaction P tx kp w")
  have f: "network w' = network w" "accountsCreated w' = accountsCreated w"
    "rootAccount w' = rootAccount w" "variant w' = variant w" "subAccount w' = subAccount w"
    "submitted w' = submitted w @ [(senderId tx, receiverId tx, actions tx)]"
    using executeTransaction_frame [of P tx kp w] executeTransaction_submitted [of P tx kp w] e
    by simp_all
  show "network (snd (signAndSend P tx kp w)) = network w"
    "accountsCreated (snd (signAndSend P tx kp w)) = accountsCreated w"
    "rootAccount (snd (signAndSend P tx kp w)) = rootAccount w"
    "variant (snd (signAndSend P tx kp w)) = variant w"
    "subAccount (snd (signAndSend P tx kp w)) = subAccount w"
    "submitted (snd (signAndSend P tx kp w)) = submitted w @ [(senderId tx, receiverId tx, actions tx)]"
    using f by (simp_all add: signAndSend_cases e split: sum.splits)
qed

text \<open>The definitions that a run on the ledger unfolds.\<close>

lemmas run_defs =
  signAndSend_def await_def executeTransaction_def Let_def
  ManagedTransaction_deleteAccount_def createTransaction_def Transaction_append_def
  testnet_world_def faucet_def ledger_signAndSend_def apply_action_def
  getKey_def keyStore_getKey_def networkId_def setKey_def keyStore_setKey_def
  deleteKey_def keyStore_removeKey_def hasSuccessValue_def AList.delete_eq

text \<open>
  For every managed transaction made by the builder, \<open>signAndSend\<close> itself removes the key
  of the receiver if and only if the transaction holds a delete-account action and the
  outcome returned has a success value; then the receiver has no key afterwards.
  Otherwise the key store is the one \<open>executeTransaction\<close> left, in which the receiver
  still has some key if it had one.
\<close>

lemma signAndSend_key_removal:
  assumes "built tx"
  shows "((\<exists>b. DeleteAccount b \<in> set (actions tx)) \<and>
          (\<exists>out. fst (signAndSend P tx keyPair w) = Inr out \<and> hasSuccessValue (status out))
            \<longrightarrow> getKey (snd (signAndSend P tx keyPair w)) (receiverId tx) = None) \<and>
         (\<not> ((\<exists>b. DeleteAccount b \<in> set (actions tx)) \<and>
             (\<exists>out. fst (signAndSend P tx keyPair w) = Inr out \<and> hasSuccessValue (status out)))
            \<longrightarrow> keyStore (snd (signAndSend P tx keyPair w))
                  = keyStore (snd (executeTransaction P tx keyPair w)) \<and>
                (getKey w (receiverId tx) \<noteq> None
                   \<longrightarrow> getKey (snd (signAndSend P tx keyPair w)) (receiverId tx) \<noteq> None))"
proof -
  obtain r w' where e: "executeTransaction P tx keyPair w = (r, w')"
    by (cases "executeTransaction P tx keyPair w")
  have d: "delete tx = (\<exists>b. DeleteAccount b \<in> set (actions tx))"
    using assms by (rule built_delete_iff)
  have keep: "getKey w (receiverId tx) \<noteq> None \<Longrightarrow> getKey w' (receiverId tx) \<noteq> None"
    using getKey_executeTransaction_remains [of w "receiverId tx" P tx keyPair] e by simp
  show ?thesis
  proof (cases r)
    case (Inl err)
    with e keep show ?thesis by (simp add: signAndSend_cases)
  next
    case (Inr out)
    with e keep d show ?thesis by (auto simp add: signAndSend_cases)
  qed
qed

text \<open>
  Three sends without a temporary key: a deletion that succeeds, one that throws, and
  one that returns a failure.
\<close>

lemma signAndSend_key_removal_runs:
  "built delete_tx \<and>
   fst (signAndSend (faucet 0) delete_tx None tmp_world)
     = Inr \<lparr>status = StatusObject (Some []) None\<rparr> \<and>
   getKey tmp_world (receiverId delete_tx) = Some old_key \<and>
   getKey (snd (signAndSend (faucet 0) delete_tx None tmp_world)) (receiverId delete_tx) = None \<and>
   fst (signAndSend (faucet 0) delete_tx None gone_world)
     = Inl (Error ''the signer does not exist'') \<and>
   getKey gone_world (receiverId delete_tx) = Some old_key \<and>
   getKey (snd (signAndSend (faucet 0) delete_tx None gone_world)) (receiverId delete_tx) \<noteq> None \<and>
   built foreign_delete_tx \<and>
   fst (signAndSend (faucet 0) foreign_delete_tx None tmp_world)
     = Inr \<lparr>status = StatusObject None (Some ''ActionError'')\<rparr> \<and>
   getKey tmp_world (receiverId foreign_delete_tx) = Some old_key \<and>
   getKey (snd (signAndSend (faucet 0) foreign_delete_tx None tmp_world))
     (receiverId foreign_delete_tx) \<noteq> None"
proof -
  have b: "built delete_tx"
    unfolding delete_tx_def by (intro built.intros)
  have b3: "built foreign_delete_tx"
    unfolding foreign_delete_tx_def by (intro built.intros)
  have r1: "fst (signAndSend (faucet 0) delete_tx None tmp_world)
              = Inr \<lparr>status = StatusObject (Some []) None\<rparr>"
    by (simp add: run_defs delete_tx_def tmp_world_def)
  have r2: "fst (signAndSend (faucet 0) delete_tx None gone_world)
              = Inl (Error ''the signer does not exist'')"
    by (simp add: run_defs delete_tx_def gone_world_def)
  have r3: "fst (signAndSend (faucet 0) foreign_delete_tx None tmp_world)
              = Inr \<lparr>status = StatusObject None (Some ''ActionError'')\<rparr>"
    by (simp add: run_defs foreign_delete_tx_def tmp_world_def)
  have k1: "getKey tmp_world (receiverId delete_tx) = Some old_key"
    by (simp add: run_defs delete_tx_def tmp_world_def)
  have k2: "getKey gone_world (receiverId delete_tx) = Some old_key"
    by (simp add: run_defs delete_tx_def gone_world_def)
  have k3: "getKey tmp_world (receiverId foreign_delete_tx) = Some old_key"
    by (simp add: run_defs foreign_delete_tx_def tmp_world_def)
  have a: "DeleteAccount ''root.testnet'' \<in> set (actions delete_tx)"
    by (simp add: run_defs delete_tx_def)
  from signAndSend_key_removal [OF b, of "faucet 0" None tmp_world] r1 a
  have g1: "getKey (snd (signAndSend (faucet 0) delete_tx None tmp_world)) (receiverId delete_tx)
              = None"
    by (auto simp: hasSuccessValue_def)
  from signAndSend_key_removal [OF b, of "faucet 0" None gone_world] r2 k2
  have g2: "getKey (snd (signAndSend (faucet 0) delete_tx None gone_world)) (receiverId delete_tx)
              \<noteq> None"
    by auto
  from signAndSend_key_removal [OF b3, of "faucet 0" None tmp_world] r3 k3
  have g3: "getKey (snd (signAndSend (faucet 0) foreign_delete_tx None tmp_world))
              (receiverId foreign_delete_tx) \<noteq> None"
    by (auto simp: hasSuccessValue_def)
  from b b3 r1 r2 r3 k1 k2 k3 g1 g2 g3 show ?thesis by blast
qed

text \<open>
  Where no key is removed, the key of the receiver is the one stored before the call
  when no temporary key was given, when the receiver is not the sender, or when the send
  returned and the sender had a key.  What is left is the send that throws under a
  temporary key, and the sender that had no key.
\<close>

lemma signAndSend_key_intact:
  assumes "\<not> (delete tx \<and>
              (\<exists>out. fst (signAndSend P tx keyPair w) = Inr out \<and> hasSuccessValue (status out)))"
    and "keyPair = None \<or> senderId tx \<noteq> receiverId tx \<or>
         ((\<exists>out. fst (signAndSend P tx keyPair w) = Inr out) \<and> getKey w (senderId tx) \<noteq> None)"
  shows "getKey (snd (signAndSend P tx keyPair w)) (receiverId tx) = getKey w (receiverId tx)"
proof -
  obtain r w' where e: "executeTransaction P tx keyPair w = (r, w')"
    by (cases "executeTransaction P tx keyPair w")
  have s: "fst (signAndSend P tx keyPair w) = r"
    by (cases r) (simp_all add: signAndSend_cases e)
  have k: "getKey (snd (signAndSend P tx keyPair w)) (receiverId tx) = getKey w' (receiverId tx)"
    using assms(1) by (cases r) (auto simp add: signAndSend_cases e)
  have "getKey w' (receiverId tx) = getKey w (receiverId tx)"
  proof (cases "keyPair = None \<or> senderId tx \<noteq> receiverId tx")
    case True
    then show ?thesis
      using getKey_executeTransaction_None [of P tx w "receiverId tx"]
        getKey_executeTransaction_other [of "receiverId tx" tx P keyPair w] e by auto
  next
    case False
    with assms(2) s obtain out old kp where o: "r = Inr out" "getKey w (senderId tx) = Some old"
      "keyPair = Some kp" "senderId tx = receiverId tx"
      by auto
    with executeTransaction_restores_on_return [of w tx old P kp out] e show ?thesis by simp
  qed
  with k show ?thesis by simp
qed

text \<open>
  C3, at a failing input.  The claim: \<open>signAndSend\<close> removes the key of the receiver if
  and only if the transaction holds a delete-account action and the outcome is a success;
  when the outcome is a failure or the submission throws, the key remains in the store.
  The deletion of \<open>tmp.testnet\<close>, made by the builder, is sent with a temporary key while
  the store holds the old key of the account, and the submission throws since the account
  is not on the chain.  The call throws, and the store then holds the temporary key for
  the receiver: the old key did not remain.
\<close>

theorem signAndSend_throw_replaces_key:
  "built delete_tx \<and>
   getKey gone_world (receiverId delete_tx) = Some old_key \<and>
   fst (signAndSend (faucet 0) delete_tx (Some temporary_key) gone_world)
     = Inl (Error ''the signer does not exist'') \<and>
   getKey (snd (signAndSend (faucet 0) delete_tx (Some temporary_key) gone_world))
     (receiverId delete_tx) = Some temporary_key \<and>
   temporary_key \<noteq> old_key"
proof -
  have "built delete_tx"
    unfolding delete_tx_def by (intro built.intros)
  then show ?thesis
    by (simp add: run_defs delete_tx_def gone_world_def old_key_def temporary_key_def)
qed

section \<open>Registration of a created account\<close>

text \<open>
  C5.  Adding a create-account action to a managed transaction records the receiver in
  the tracking table of the manager at once: the table holds the receiver after the
  builder call, nothing has been sent by it, and a later \<open>signAndSend\<close>, whatever it
  returns or throws, leaves the table as the builder call made it.
\<close>

theorem createAccount_registers_before_send:
  "map_of (accountsCreated (snd (ManagedTransaction_createAccount tx w))) (receiverId tx)
     = Some (replace (receiverId tx) (''.'' @ senderId tx) []) \<and>
   submitted (snd (ManagedTransaction_createAccount tx w)) = submitted w \<and>
   (\<forall>P keyPair.
      accountsCreated (snd (signAndSend P (fst (ManagedTransaction_createAccount tx w)) keyPair
                              (snd (ManagedTransaction_createAccount tx w))))
        = accountsCreated (snd (ManagedTransaction_createAccount tx w)))"
  by (simp add: ManagedTransaction_createAccount_def addAccountCreated_def Let_def
      AList.update_conv')

section \<open>The short name in the tracking table\<close>

lemma replace_at_suffix:
  "pat \<noteq> [] \<Longrightarrow> \<forall>i<length short. \<not> startsWith (drop i (short @ pat)) pat
     \<Longrightarrow> replace (short @ pat) pat [] = short"
proof (induction short)
  case Nil
  then show ?case by (cases pat) (simp_all add: startsWith_def)
next
  case (Cons a s)
  from Cons.prems(2) have h0: "\<not> startsWith ((a # s) @ pat) pat" by force
  have hs: "\<forall>i<length s. \<not> startsWith (drop i (s @ pat)) pat"
  proof (intro allI impI)
    fix i assume "i < length s"
    then have "Suc i < length (a # s)" by simp
    with Cons.prems(2) have "\<not> startsWith (drop (Suc i) ((a # s) @ pat)) pat" by blast
    then show "\<not> startsWith (drop i (s @ pat)) pat" by simp
  qed
  from Cons.IH [OF Cons.prems(1) hs] h0 show ?case by simp
qed

text \<open>A short name without a dot has no earlier occurrence of the dot and the sender.\<close>

lemma dot_free_no_early_match:
  "CHR ''.'' \<notin> set short \<Longrightarrow>
     \<forall>i<length short. \<not> startsWith (drop i (short @ CHR ''.'' # sender)) (CHR ''.'' # sender)"
proof (intro allI impI)
  fix i assume d: "CHR ''.'' \<notin> set short" and i: "i < length short"
  then have "drop i (short @ CHR ''.'' # sender)
               = short ! i # drop (Suc i) (short @ CHR ''.'' # sender)"
    by (simp add: Cons_nth_drop_Suc nth_append)
  moreover from d i have "short ! i \<noteq> CHR ''.''" by (metis nth_mem)
  ultimately show "\<not> startsWith (drop i (short @ CHR ''.'' # sender)) (CHR ''.'' # sender)"
    by (simp add: startsWith_def)
qed

text \<open>
  Where the dot and the sender first occur at the end of the account id, the table holds
  the short name; so it does for every short name without a dot.
\<close>

lemma addAccountCreated_short_name_when_suffix_first:
  assumes "\<forall>i<length short. \<not> startsWith (drop i (short @ ''.'' @ sender)) (''.'' @ sender)"
  shows "map_of (accountsCreated (addAccountCreated (short @ ''.'' @ sender) sender w))
           (short @ ''.'' @ sender) = Some short"
  using replace_at_suffix [of "''.'' @ sender" short] assms
  by (simp add: addAccountCreated_def Let_def AList.update_conv')

lemma addAccountCreated_short_name_dot_free:
  assumes "CHR ''.'' \<notin> set short"
  shows "map_of (accountsCreated (addAccountCreated (short @ ''.'' @ sender) sender w))
           (short @ ''.'' @ sender) = Some short"
  using addAccountCreated_short_name_when_suffix_first [of short sender w]
    dot_free_no_early_match [OF assms, of sender]
  by simp

text \<open>
  C6, at a failing input.  The claim: for every account id of the form \<open>short.sender\<close>,
  the tracking table maps the account id to \<open>short\<close>, the id without the suffix of the dot
  and the sender, after \<open>addAccountCreated\<close>.  The account \<open>x.nearby.near\<close> of the sender
  \<open>near\<close> has the short name \<open>x.nearby\<close>; \<open>replace\<close> removes the first occurrence of
  \<open>.near\<close>, which is not the suffix, and the table holds \<open>xby.near\<close>.
\<close>

theorem addAccountCreated_removes_first_occurrence:
  "map_of (accountsCreated (addAccountCreated (''x.nearby'' @ ''.'' @ ''near'') ''near'' testnet_world))
     (''x.nearby'' @ ''.'' @ ''near'') = Some ''xby.near'' \<and>
   map_of (accountsCreated (addAccountCreated (''x.nearby'' @ ''.'' @ ''near'') ''near'' testnet_world))
     (''x.nearby'' @ ''.'' @ ''near'') \<noteq> Some ''x.nearby''"
  by (simp add: addAccountCreated_def testnet_world_def startsWith_def)

section \<open>What the operations leave unchanged\<close>

text \<open>
  Every operation but the registration of a created account leaves what the manager
  itself holds as it was; the discovery of the root account changes the configured root
  only.
\<close>

lemma manager_fieldD:
  assumes "manager_field I"
  shows "I (w\<lparr>keyStore := ks\<rparr>) = I w" "I (w\<lparr>chainState := c\<rparr>) = I w"
    "I (w\<lparr>submitted := t\<rparr>) = I w" "I (w\<lparr>seed := n\<rparr>) = I w"
    "I (w\<lparr>validatorKeyFile := f\<rparr>) = I w"
  using assms by (simp_all add: manager_field_def)

lemma manager_field_examples [simp]:
  "manager_field variant" "manager_field network" "manager_field subAccount"
  "manager_field accountsCreated" "manager_field rootAccount"
  "manager_field realRoot" "manager_field rootAccountId" "manager_field networkId"
  by (simp_all add: manager_field_def realRoot_def rootAccountId_def config_rootAccount_def networkId_def)

lemma await_keeps:
  assumes "\<And>s. I (snd (m s)) = I s" and "\<And>a s. I (snd (f a s)) = I s"
  shows "I (snd (await m f s)) = I s"
proof (cases "m s")
  case (Pair r s')
  with assms(1) [of s] have "I s' = I s" by simp
  with Pair assms(2) show ?thesis by (cases r) (simp_all add: await_def)
qed

lemma promise_all_keeps:
  assumes "\<And>t s. t \<in> set ts \<Longrightarrow> I (snd (t s)) = I s"
  shows "I (snd (promise_all ts s)) = I s"
  using assms
proof (induction ts arbitrary: s)
  case Nil
  then show ?case by simp
next
  case (Cons t ts)
  obtain r s' where t: "t s = (r, s')" by (cases "t s")
  obtain rs s'' where p: "promise_all ts s' = (rs, s'')" by (cases "promise_all ts s'")
  have "I s' = I s" using Cons.prems [of t s] t by simp
  moreover have "I s'' = I s'" using Cons.IH [of s'] Cons.prems p by simp
  ultimately show ?case using t p by (simp split: sum.splits)
qed

lemma setKey_keeps: "manager_field I \<Longrightarrow> I (snd (setKey P a k w)) = I w"
  by (simp add: manager_fieldD [of I] setKey_def keyStore_setKey_def split: option.splits)

lemma keyStore_setKey_keeps: "manager_field I \<Longrightarrow> I (keyStore_setKey n a k w) = I w"
  by (simp add: manager_fieldD [of I] keyStore_setKey_def)

lemma deleteKey_keeps: "manager_field I \<Longrightarrow> I (deleteKey a w) = I w"
  by (simp add: manager_fieldD [of I] deleteKey_def keyStore_removeKey_def)

lemma removeKey_keeps: "manager_field I \<Longrightarrow> I (removeKey a w) = I w"
  by (simp add: manager_fieldD [of I] removeKey_def keyStore_removeKey_def)

lemma getRootKey_keeps: "manager_field I \<Longrightarrow> I (snd (getRootKey P w)) = I w"
  by (simp add: getRootKey_def setKey_keeps [of I] split: option.splits)

lemma random_id_keeps: "manager_field I \<Longrightarrow> I (snd (random_id P a b w)) = I w"
  by (simp add: manager_fieldD [of I] random_id_def)

lemma getKeyFromFile_keeps: "manager_field I \<Longrightarrow> I (snd (getKeyFromFile P w)) = I w"
  by (simp add: manager_fieldD [of I] getKeyFromFile_def split: option.splits)

lemma executeTransaction_keeps:
  "manager_field I \<Longrightarrow> I (snd (executeTransaction P tx kp w)) = I w"
  by (simp add: manager_fieldD [of I] executeTransaction_def Let_def setKey_keeps [of I]
      split: option.splits sum.splits)

lemma signAndSend_keeps: "manager_field I \<Longrightarrow> I (snd (signAndSend P tx kp w)) = I w"
  unfolding signAndSend_def
  by (rule await_keeps [where I = I]) (simp_all add: executeTransaction_keeps deleteKey_keeps)

lemma Account_delete_keeps: "manager_field I \<Longrightarrow> I (snd (Account_delete P a b w)) = I w"
  by (simp add: Account_delete_def signAndSend_keeps)

lemma deleteAccount_keeps: "manager_field I \<Longrightarrow> I (snd (deleteAccount P a b w)) = I w"
  unfolding deleteAccount_def
  by (rule await_keeps [where I = I]) (simp_all add: Account_delete_keeps)

lemma cleanup_keeps:
  assumes m: "manager_field I"
  shows "I (snd (cleanup P w)) = I w"
proof (cases "variant w = TestnetSubaccountManager")
  case False
  then show ?thesis by (simp add: cleanup_def)
next
  case True
  have "\<And>s. I (snd (promise_all
                 (map (\<lambda>accountId. Account_delete P accountId (realRoot w))
                    (map fst (accountsCreated w))) s)) = I s"
    by (rule promise_all_keeps [where I = I]) (auto simp: Account_delete_keeps [OF m])
  then have "I (snd (await (promise_all
                 (map (\<lambda>accountId. Account_delete P accountId (realRoot w))
                    (map fst (accountsCreated w)))) (\<lambda>outcomes w'. (Inr (), w')) w)) = I w"
    by (intro await_keeps [where I = I]) simp_all
  with True show ?thesis by (simp add: cleanup_def)
qed

lemma TestnetManager_createAccount_keeps:
  "manager_field I \<Longrightarrow> I (snd (TestnetManager_createAccount P a k w)) = I w"
  by (simp add: manager_fieldD [of I] TestnetManager_createAccount_def split: prod.splits sum.splits)

lemma addFunds_keeps:
  assumes m: "manager_field I"
  shows "I (snd (addFunds P w)) = I w"
proof -
  obtain t w1 where r: "random_id P None None w = (t, w1)" by (cases "random_id P None None w")
  obtain k w2 where g: "getRootKey P w1 = (k, w2)" by (cases "getRootKey P w1")
  have 1: "I w1 = I w" using random_id_keeps [OF m, of P None None w] r by simp
  have 2: "I w2 = I w1" using getRootKey_keeps [OF m, of P w1] g by simp
  have d: "\<And>account w4. I (snd (await (Account_delete P account (rootAccountId w4))
                                     (\<lambda>outcome w5. (Inr (), w5)) w4)) = I w4"
    by (rule await_keeps [where I = I]) (simp_all add: Account_delete_keeps [OF m])
  have "I (snd (addFunds P w)) = I (keyStore_setKey (networkId w2) t k w2)"
    unfolding addFunds_def r g prod.case
    by (rule await_keeps [where I = I]) (simp_all add: TestnetManager_createAccount_keeps [OF m] d)
  with 1 2 show ?thesis by (simp add: keyStore_setKey_keeps [OF m])
qed

lemma findAccountsWithPrefix_keeps:
  "manager_field I \<Longrightarrow> I (snd (findAccountsWithPrefix P p n w)) = I w"
  by (simp add: manager_fieldD [of I] findAccountsWithPrefix_def Let_def random_id_def)

lemma root_freeD: "root_free I \<Longrightarrow> I (w\<lparr>rootAccount := r\<rparr>) = I w"
  by (simp add: root_free_def)

lemma root_free_examples [simp]:
  "root_free variant" "root_free network" "root_free subAccount" "root_free accountsCreated"
  "root_free networkId"
  by (simp_all add: root_free_def networkId_def)

lemma initRootAccount_keeps:
  assumes m: "manager_field I" and f: "root_free I"
  shows "I (snd (initRootAccount P w)) = I w"
proof -
  let ?p = "path_parse P (findCallerFile P)"
  obtain as w1 where a: "findAccountsWithPrefix P (derived_prefix ?p) (networkId w) w = (as, w1)"
    by (cases "findAccountsWithPrefix P (derived_prefix ?p) (networkId w) w")
  have 1: "I w1 = I w"
    using findAccountsWithPrefix_keeps [OF m, of P "derived_prefix ?p" "networkId w" w] a by simp
  show ?thesis
  proof (cases as)
    case Nil
    with a 1 show ?thesis by (simp add: initRootAccount_def Let_def root_freeD [OF f])
  next
    case (Cons x rest)
    have "\<And>s. I (snd (promise_all (map (\<lambda>acc. deleteAccount P acc x) rest) s)) = I s"
      by (rule promise_all_keeps [where I = I]) (auto simp: deleteAccount_keeps [OF m])
    then have "I (snd (await (promise_all (map (\<lambda>acc. deleteAccount P acc x) rest))
             (\<lambda>done w2. (Inr (), w2\<lparr>rootAccount := Some x\<rparr>)) w1)) = I w1"
      by (intro await_keeps [where I = I]) (simp_all add: root_freeD [OF f])
    with a 1 Cons show ?thesis by (simp add: initRootAccount_def Let_def)
  qed
qed

lemma Account_balance_keeps [simp]: "snd (Account_balance P a w) = w"
  by (simp add: Account_balance_def balance_def)

lemma createAndFundAccount_keeps:
  assumes m: "manager_field I" and f: "root_free I"
  shows "I (snd (createAndFundAccount P w)) = I w"
proof -
  have ensure: "I (snd (if \<not> accountExists P (chainState s') (rootAccountId s)
             then case getRootKey P s' of
                  (keyPair, w2) \<Rightarrow>
                    await (TestnetManager_createAccount P (rootAccountId s) (getPublicKey keyPair))
                     (\<lambda>account w3. (Inr (), w3))
                     (keyStore_setKey (networkId w2) (rootAccountId s) keyPair w2)
             else (Inr (), s'))) = I s'" for s s'
  proof (cases "accountExists P (chainState s') (rootAccountId s)")
    case True
    then show ?thesis by simp
  next
    case False
    obtain k w2 where g: "getRootKey P s' = (k, w2)" by (cases "getRootKey P s'")
    have 2: "I w2 = I s'" using getRootKey_keeps [OF m, of P s'] g by simp
    have "I (snd (await (TestnetManager_createAccount P (rootAccountId s) (getPublicKey k))
                    (\<lambda>account w3. (Inr (), w3))
                    (keyStore_setKey (networkId w2) (rootAccountId s) k w2)))
            = I (keyStore_setKey (networkId w2) (rootAccountId s) k w2)"
      by (rule await_keeps [where I = I]) (simp_all add: TestnetManager_createAccount_keeps [OF m])
    with False g 2 show ?thesis by (simp add: keyStore_setKey_keeps [OF m])
  qed
  have fund: "I (snd (await (Account_balance P (rootAccountId w4))
              (\<lambda>available w5. if available < toYocto 1000 then addFunds P w5 else (Inr (), w5)) w4))
            = I w4" for w4
    by (rule await_keeps [where I = I]) (simp_all add: addFunds_keeps [OF m])
  have rest: "I (snd (await
         (\<lambda>w. if \<not> accountExists P (chainState w) (rootAccountId w1)
              then (case getRootKey P w of (keyPair, w2) \<Rightarrow>
                      await (TestnetManager_createAccount P (rootAccountId w1) (getPublicKey keyPair))
                        (\<lambda>account w3. (Inr (), w3))
                        (keyStore_setKey (networkId w2) (rootAccountId w1) keyPair w2))
              else (Inr (), w))
         (\<lambda>u w4.
            await (Account_balance P (rootAccountId w4))
              (\<lambda>available w5.
                 if available < toYocto 1000 then addFunds P w5 else (Inr (), w5)) w4)
         w1)) = I w1" for w1
    by (rule await_keeps [where I = I]) (simp_all only: ensure fund)
  show ?thesis
    unfolding createAndFundAccount_def
    by (rule await_keeps [where I = I]) (simp_all only: initRootAccount_keeps [OF m f] rest)
qed

lemma TestnetManager_init_keeps:
  assumes m: "manager_field I" and f: "root_free I"
  shows "I (snd (TestnetManager_init P w)) = I w"
  unfolding TestnetManager_init_def
  by (rule await_keeps [where I = I]) (simp_all add: createAndFundAccount_keeps [OF m f])

lemma SandboxManager_init_keeps:
  assumes m: "manager_field I"
  shows "I (snd (SandboxManager_init P w)) = I w"
proof -
  obtain k w1 where g: "getKeyFromFile P w = (k, w1)" by (cases "getKeyFromFile P w")
  have "I w1 = I w" using getKeyFromFile_keeps [OF m, of P w] g by simp
  with g show ?thesis by (simp add: SandboxManager_init_def setKey_keeps [OF m])
qed

section \<open>The requests that deletions send\<close>

lemma snd_promise_all_Cons:
  "snd (promise_all (t # ts) s) = snd (promise_all ts (snd (t s)))"
  by (simp split: prod.splits sum.splits)

lemma Account_delete_submitted:
  "submitted (snd (Account_delete P a b w)) = submitted w @ [(a, a, [DeleteAccount b])]"
  by (simp add: Account_delete_def ManagedTransaction_deleteAccount_def createTransaction_def
      Transaction_append_def)

lemma snd_await_return: "snd (await m (\<lambda>x s. (Inr (g x), s)) w) = snd (m w)"
  by (simp add: await_def split: prod.splits sum.splits)

lemma deleteAccount_submitted:
  "submitted (snd (deleteAccount P a b w)) = submitted w @ [(a, a, [DeleteAccount b])]"
  unfolding deleteAccount_def
  using snd_await_return [of "Account_delete P a b" "\<lambda>x. ()" w]
  by (simp add: Account_delete_submitted)

lemma promise_all_Account_delete_submitted:
  "submitted (snd (promise_all (map (\<lambda>acc. Account_delete P acc b) accs) w))
     = submitted w @ map (\<lambda>acc. (acc, acc, [DeleteAccount b])) accs"
proof (induction accs arbitrary: w)
  case Nil
  show ?case by simp
next
  case (Cons a accs)
  show ?case
    unfolding list.map snd_promise_all_Cons
    by (simp add: Cons.IH Account_delete_submitted)
qed

lemma promise_all_deleteAccount_submitted:
  "submitted (snd (promise_all (map (\<lambda>acc. deleteAccount P acc b) accs) w))
     = submitted w @ map (\<lambda>acc. (acc, acc, [DeleteAccount b])) accs"
proof (induction accs arbitrary: w)
  case Nil
  show ?case by simp
next
  case (Cons a accs)
  show ?case
    unfolding list.map snd_promise_all_Cons
    by (simp add: Cons.IH deleteAccount_submitted)
qed

text \<open>
  C7.  \<open>cleanup\<close> of the base class, which the testnet and the sandbox manager inherit,
  returns at once with the state unchanged: nothing is sent and nothing of the manager
  changes.  \<open>cleanup\<close> of the sub-account manager sends one delete-account request for
  every account id of its tracking table, in the order of the table, each with the
  real root account as beneficiary.
\<close>

theorem cleanup_deletes_only_for_subaccount_manager:
  "(variant w \<noteq> TestnetSubaccountManager \<longrightarrow> cleanup P w = (Inr (), w)) \<and>
   (variant w = TestnetSubaccountManager \<longrightarrow>
      submitted (snd (cleanup P w))
        = submitted w @ map (\<lambda>accountId. (accountId, accountId, [DeleteAccount (realRoot w)]))
                           (map fst (accountsCreated w)))"
proof (cases "variant w = TestnetSubaccountManager")
  case False
  then show ?thesis by (simp add: cleanup_def)
next
  case True
  have "snd (cleanup P w) = snd (promise_all
           (map (\<lambda>accountId. Account_delete P accountId (realRoot w)) (map fst (accountsCreated w))) w)"
    using True snd_await_return [of _ "\<lambda>x. ()" w] by (simp add: cleanup_def)
  with True promise_all_Account_delete_submitted [of P "realRoot w" "map fst (accountsCreated w)" w]
  show ?thesis by simp
qed

theorem cleanup_deletes_only_for_subaccount_manager_witness:
  "variant sub_world = TestnetSubaccountManager \<and>
   submitted (snd (cleanup (faucet 0) sub_world))
     = [(''a.sub.root.testnet'', ''a.sub.root.testnet'', [DeleteAccount ''root.testnet'']),
        (''b.sub.root.testnet'', ''b.sub.root.testnet'', [DeleteAccount ''root.testnet''])] \<and>
   variant (sub_world\<lparr>variant := TestnetManager\<rparr>) \<noteq> TestnetSubaccountManager \<and>
   cleanup (faucet 0) (sub_world\<lparr>variant := TestnetManager\<rparr>)
     = (Inr (), sub_world\<lparr>variant := TestnetManager\<rparr>) \<and>
   variant (sub_world\<lparr>variant := SandboxManager\<rparr>) \<noteq> TestnetSubaccountManager \<and>
   cleanup (faucet 0) (sub_world\<lparr>variant := SandboxManager\<rparr>)
     = (Inr (), sub_world\<lparr>variant := SandboxManager\<rparr>)"
  using cleanup_deletes_only_for_subaccount_manager [of sub_world "faucet 0"]
    cleanup_deletes_only_for_subaccount_manager [of "sub_world\<lparr>variant := TestnetManager\<rparr>" "faucet 0"]
    cleanup_deletes_only_for_subaccount_manager [of "sub_world\<lparr>variant := SandboxManager\<rparr>" "faucet 0"]
  by (simp add: sub_world_def testnet_world_def realRoot_def config_rootAccount_def)

section \<open>The factory and the network name\<close>

text \<open>The definitions that a run of the testnet \<open>init\<close> unfolds, and such a run.\<close>

lemmas init_defs =
  TestnetManager_init_def createAndFundAccount_def initRootAccount_def rootAccount_configured_def
  addFunds_def random_id_def getRootKey_def TestnetManager_createAccount_def
  Account_balance_def balance_def Account_delete_def rootAccountId_def config_rootAccount_def
  ledger_createAccount_def ledger_balance_def

lemma init_configured_run:
  "g < toYocto 1000 \<Longrightarrow>
     TestnetManager_init (faucet g) configured_world = (Inr (), funded_root_world g)"
  by (simp add: init_defs run_defs configured_world_def funded_root_world_def AList.update_conv')

text \<open>
  C8.  For every network name other than \<open>sandbox\<close> and \<open>testnet\<close>, \<open>AccountManager.create\<close>
  throws the error whose message names the network, and leaves the state as it was:
  no manager is constructed, no \<open>init\<close> runs, nothing is read or written.  For \<open>sandbox\<close>
  and \<open>testnet\<close> it is the \<open>init\<close> of a new manager of that variant, and the manager it
  leaves is of that variant.
\<close>

theorem create_by_network:
  "(network w \<noteq> ''sandbox'' \<and> network w \<noteq> ''testnet'' \<longrightarrow>
      AccountManager_create P w =
        (Inl (Error (''Bad network id: '' @ network w @ '' expected '' @ [CHR 0x22] @ ''testnet''
                       @ [CHR 0x22] @ '' or '' @ [CHR 0x22] @ ''sandbox'' @ [CHR 0x22])), w)) \<and>
   (network w = ''sandbox'' \<longrightarrow>
      AccountManager_create P w
        = SandboxManager_init P (w\<lparr>variant := SandboxManager, accountsCreated := []\<rparr>) \<and>
      variant (snd (AccountManager_create P w)) = SandboxManager) \<and>
   (network w = ''testnet'' \<longrightarrow>
      AccountManager_create P w
        = TestnetManager_init P (w\<lparr>variant := TestnetManager, accountsCreated := []\<rparr>) \<and>
      variant (snd (AccountManager_create P w)) = TestnetManager)"
  by (simp add: AccountManager_create_def init_def bad_network_message_def
      SandboxManager_init_keeps TestnetManager_init_keeps)

theorem create_by_network_witness:
  "network mainnet_world \<noteq> ''sandbox'' \<and> network mainnet_world \<noteq> ''testnet'' \<and>
   AccountManager_create (faucet 0) mainnet_world
     = (Inl (Error (''Bad network id: mainnet expected '' @ [CHR 0x22] @ ''testnet''
                       @ [CHR 0x22] @ '' or '' @ [CHR 0x22] @ ''sandbox'' @ [CHR 0x22])),
        mainnet_world) \<and>
   network sandbox_world = ''sandbox'' \<and>
   variant (snd (AccountManager_create (faucet 0) sandbox_world)) = SandboxManager \<and>
   fst (AccountManager_create (faucet 0) sandbox_world) = Inr () \<and>
   network configured_world = ''testnet'' \<and>
   variant (snd (AccountManager_create (faucet 0) configured_world)) = TestnetManager \<and>
   fst (AccountManager_create (faucet 0) configured_world) = Inr ()"
proof -
  have n: "network mainnet_world \<noteq> ''sandbox''" "network mainnet_world \<noteq> ''testnet''"
    "network sandbox_world = ''sandbox''" "network configured_world = ''testnet''"
    by (simp_all add: mainnet_world_def sandbox_world_def configured_world_def testnet_world_def)
  have z: "(0::nat) < toYocto 1000" by (simp add: toYocto_def)
  have c: "configured_world\<lparr>variant := TestnetManager, accountsCreated := []\<rparr> = configured_world"
    by (simp add: configured_world_def testnet_world_def)
  have t: "fst (AccountManager_create (faucet 0) configured_world) = Inr ()"
    using create_by_network [of configured_world "faucet 0"] n init_configured_run [OF z]
    by (simp add: c)
  have s: "fst (AccountManager_create (faucet 0) sandbox_world) = Inr ()"
    using create_by_network [of sandbox_world "faucet 0"] n
    by (simp add: SandboxManager_init_def split: prod.splits)
  have nm: "network mainnet_world = ''mainnet''"
    by (simp add: mainnet_world_def)
  from create_by_network [of mainnet_world "faucet 0"] n(1,2)
  have m: "AccountManager_create (faucet 0) mainnet_world
             = (Inl (Error (''Bad network id: mainnet expected '' @ [CHR 0x22] @ ''testnet''
                       @ [CHR 0x22] @ '' or '' @ [CHR 0x22] @ ''sandbox'' @ [CHR 0x22])),
                mainnet_world)"
    by (simp add: nm)
  from create_by_network [of sandbox_world "faucet 0"] n(3)
  have sv: "variant (snd (AccountManager_create (faucet 0) sandbox_world)) = SandboxManager"
    by blast
  from create_by_network [of configured_world "faucet 0"] n(4)
  have tv: "variant (snd (AccountManager_create (faucet 0) configured_world)) = TestnetManager"
    by blast
  from n m sv tv s t show ?thesis by blast
qed

section \<open>Discovery of the root account\<close>

lemmas discovery_defs =
  initRootAccount_def rootAccount_configured_def findAccountsWithPrefix_def
  keyStore_getAccounts_def derived_prefix_def split_first_def startsWith_def random_id_def
  deleteAccount_def Account_delete_def

text \<open>
  C4.  With no root account configured and the caller identified as a script, for
  every key store: if one or more account ids stored for the network start with the
  derived prefix, one delete-account request is sent for every such id but the first,
  in the order of the store, with the first as beneficiary, and when the discovery
  returns the first id is the root; if none matches, the discovery returns, the root is
  the random account id drawn for that prefix, and nothing is sent.
\<close>

theorem initRootAccount_discovery:
  assumes "\<not> rootAccount_configured w"
    and "ext (path_parse P (findCallerFile P)) \<in> {''.ts'', ''.js''}"
  shows "let prefix = derived_prefix (path_parse P (findCallerFile P));
             matches = filter (\<lambda>accountId. startsWith accountId prefix)
                         (keyStore_getAccounts w (networkId w))
         in (matches \<noteq> [] \<longrightarrow>
               submitted (snd (initRootAccount P w))
                 = submitted w @ map (\<lambda>acc. (acc, acc, [DeleteAccount (hd matches)])) (tl matches) \<and>
               (fst (initRootAccount P w) = Inr () \<longrightarrow>
                  rootAccount (snd (initRootAccount P w)) = Some (hd matches))) \<and>
            (matches = [] \<longrightarrow>
               fst (initRootAccount P w) = Inr () \<and>
               rootAccount (snd (initRootAccount P w))
                 = Some (randomAccountId P (seed w) (Some prefix) (Some [])) \<and>
               submitted (snd (initRootAccount P w)) = submitted w)"
proof -
  define prefix where "prefix = derived_prefix (path_parse P (findCallerFile P))"
  define matches where "matches = filter (\<lambda>accountId. startsWith accountId prefix)
                         (keyStore_getAccounts w (networkId w))"
  show ?thesis
  proof (cases matches)
    case Nil
    then have f: "findAccountsWithPrefix P prefix (networkId w) w
                   = ([randomAccountId P (seed w) (Some prefix) (Some [])], w\<lparr>seed := Suc (seed w)\<rparr>)"
      by (simp add: findAccountsWithPrefix_def matches_def random_id_def)
    have "initRootAccount P w
            = (Inr (), w\<lparr>seed := Suc (seed w),
                          rootAccount := Some (randomAccountId P (seed w) (Some prefix) (Some []))\<rparr>)"
      using assms f by (simp add: initRootAccount_def prefix_def await_def)
    with Nil show ?thesis
      unfolding Let_def prefix_def [symmetric] matches_def [symmetric] by simp
  next
    case (Cons x rest)
    then have f: "findAccountsWithPrefix P prefix (networkId w) w = (x # rest, w)"
      by (simp add: findAccountsWithPrefix_def matches_def)
    have i: "initRootAccount P w
               = await (promise_all (map (\<lambda>acc. deleteAccount P acc x) rest))
                   (\<lambda>done w2. (Inr (), w2\<lparr>rootAccount := Some x\<rparr>)) w"
      using assms f by (simp add: initRootAccount_def prefix_def)
    obtain r w' where p: "promise_all (map (\<lambda>acc. deleteAccount P acc x) rest) w = (r, w')"
      by (cases "promise_all (map (\<lambda>acc. deleteAccount P acc x) rest) w")
    have s: "submitted w' = submitted w @ map (\<lambda>acc. (acc, acc, [DeleteAccount x])) rest"
      using promise_all_deleteAccount_submitted [of P x rest w] p by simp
    have "submitted (snd (initRootAccount P w))
            = submitted w @ map (\<lambda>acc. (acc, acc, [DeleteAccount x])) rest"
      "fst (initRootAccount P w) = Inr () \<longrightarrow> rootAccount (snd (initRootAccount P w)) = Some x"
      using i p s by (cases r; simp add: await_def)+
    with Cons show ?thesis
      unfolding Let_def prefix_def [symmetric] matches_def [symmetric] by simp
  qed
qed

theorem initRootAccount_discovery_witness:
  "\<not> rootAccount_configured foo_world \<and>
   ext (path_parse (faucet 0) (findCallerFile (faucet 0))) \<in> {''.ts'', ''.js''} \<and>
   fst (initRootAccount (faucet 0) foo_world) = Inr () \<and>
   rootAccount (snd (initRootAccount (faucet 0) foo_world)) = Some ''foo1'' \<and>
   submitted (snd (initRootAccount (faucet 0) foo_world))
     = [(''foo2'', ''foo2'', [DeleteAccount ''foo1''])] \<and>
   \<not> rootAccount_configured testnet_world \<and>
   rootAccount (snd (initRootAccount (faucet 0) testnet_world)) = Some ''foo7'' \<and>
   submitted (snd (initRootAccount (faucet 0) testnet_world)) = []"
proof -
  have c1: "\<not> rootAccount_configured foo_world"
    by (simp add: rootAccount_configured_def foo_world_def testnet_world_def)
  have c2: "\<not> rootAccount_configured testnet_world"
    by (simp add: rootAccount_configured_def testnet_world_def)
  have e: "ext (path_parse (faucet 0) (findCallerFile (faucet 0))) \<in> {''.ts'', ''.js''}"
    by (simp add: faucet_def)
  have p: "derived_prefix (path_parse (faucet 0) (findCallerFile (faucet 0))) = ''foo''"
    by (simp add: faucet_def derived_prefix_def split_first_def)
  have m1: "filter (\<lambda>accountId. startsWith accountId ''foo'')
              (keyStore_getAccounts foo_world (networkId foo_world)) = [''foo1'', ''foo2'']"
    by (simp add: keyStore_getAccounts_def foo_world_def testnet_world_def networkId_def
        startsWith_def)
  have m2: "filter (\<lambda>accountId. startsWith accountId ''foo'')
              (keyStore_getAccounts testnet_world (networkId testnet_world)) = []"
    by (simp add: keyStore_getAccounts_def testnet_world_def)
  have r: "fst (initRootAccount (faucet 0) foo_world) = Inr ()"
    by (simp add: discovery_defs run_defs foo_world_def)
  have s0: "submitted foo_world = []" "submitted testnet_world = []" "seed testnet_world = 0"
    by (simp_all add: foo_world_def testnet_world_def)
  have n: "randomAccountId (faucet 0) 0 (Some ''foo'') (Some []) = ''foo7''"
    by (simp add: faucet_def)
  from initRootAccount_discovery [OF c1 e] r
  have a: "rootAccount (snd (initRootAccount (faucet 0) foo_world)) = Some ''foo1''"
    "submitted (snd (initRootAccount (faucet 0) foo_world))
       = [(''foo2'', ''foo2'', [DeleteAccount ''foo1''])]"
    by (simp_all add: Let_def p m1 s0)
  from initRootAccount_discovery [OF c2 e]
  have b: "rootAccount (snd (initRootAccount (faucet 0) testnet_world)) = Some ''foo7''"
    "submitted (snd (initRootAccount (faucet 0) testnet_world)) = []"
    by (simp_all add: Let_def p m2 s0 n)
  from c1 c2 e r a b show ?thesis by blast
qed

section \<open>The tracking table only grows\<close>

lemma addAccountCreated_grows:
  "fst ` set (accountsCreated (addAccountCreated a s w)) = insert a (fst ` set (accountsCreated w))"
  by (simp add: addAccountCreated_def Let_def AList.dom_update)

lemma Account_createAccount_grows:
  "fst ` set (accountsCreated (snd (Account_createAccount P self a n w)))
     = insert a (fst ` set (accountsCreated w))"
proof -
  have "accountsCreated (snd (Account_createAccount P self a n w))
          = accountsCreated (addAccountCreated a self w)"
    unfolding Account_createAccount_def ManagedTransaction_createAccount_def prod.case
    by (simp add: snd_await_return signAndSend_keeps createTransaction_def)
  then show ?thesis by (simp add: addAccountCreated_grows)
qed

lemma TestnetSubaccountManager_init_grows:
  "fst ` set (accountsCreated w)
     \<subseteq> fst ` set (accountsCreated (snd (TestnetSubaccountManager_init P w)))"
proof -
  let ?w2 = "w\<lparr>seed := Suc (seed w),
               subAccount := makeSubAccount (realRoot w) (randomAccountId P (seed w) (Some []) (Some []))\<rparr>"
  have "accountsCreated (snd (TestnetSubaccountManager_init P w))
          = accountsCreated (snd (Account_createAccount P (realRoot ?w2) (subAccount ?w2) (toYocto 50) ?w2))"
    unfolding TestnetSubaccountManager_init_def random_id_def prod.case Let_def
    by (simp add: snd_await_return)
  then show ?thesis by (auto simp: Account_createAccount_grows)
qed

lemma init_grows:
  "fst ` set (accountsCreated w) \<subseteq> fst ` set (accountsCreated (snd (init P w)))"
  by (cases "variant w")
     (simp_all add: init_def SandboxManager_init_keeps TestnetManager_init_keeps
        TestnetSubaccountManager_init_grows)

text \<open>
  C10.  No operation of a manager of any variant, and no builder call or send of a
  managed transaction, removes an account id from the tracking table: the ids tracked
  before are tracked after.  \<open>cleanup\<close>, of any variant, leaves the table exactly as it
  was, also where it deletes the tracked accounts on the chain.
\<close>

theorem accountsCreated_only_grows:
  "fst ` set (accountsCreated w) \<subseteq> fst ` set (accountsCreated (perform P op w)) \<and>
   accountsCreated (snd (cleanup P w)) = accountsCreated w"
proof
  show "fst ` set (accountsCreated w) \<subseteq> fst ` set (accountsCreated (perform P op w))"
  proof (cases op)
    case Op_init
    then show ?thesis by (simp add: perform_def init_grows)
  next
    case (Op_addAccountCreated a s)
    then show ?thesis by (auto simp: perform_def addAccountCreated_grows)
  next
    case (Op_builder_createAccount tx)
    then show ?thesis
      by (auto simp: perform_def ManagedTransaction_createAccount_def addAccountCreated_grows)
  qed (simp_all add: perform_def deleteKey_keeps setKey_keeps removeKey_keeps deleteAccount_keeps
        getRootKey_keeps executeTransaction_keeps cleanup_keeps TestnetManager_createAccount_keeps
        addFunds_keeps createAndFundAccount_keeps initRootAccount_keeps signAndSend_keeps)
next
  show "accountsCreated (snd (cleanup P w)) = accountsCreated w"
    by (simp add: cleanup_keeps)
qed

section \<open>Funding of the root account\<close>

lemma chainState_getRootKey [simp]: "chainState (snd (getRootKey P w)) = chainState w"
  by (simp add: getRootKey_def split: option.splits)

lemma getRootKey_frame [simp]:
  "network (snd (getRootKey P w)) = network w"
  "rootAccount (snd (getRootKey P w)) = rootAccount w"
  "variant (snd (getRootKey P w)) = variant w"
  "subAccount (snd (getRootKey P w)) = subAccount w"
  by (simp_all add: getRootKey_def split: option.splits)

lemma faucet_createAccount_new:
  "map_of (chainState w) a = None \<Longrightarrow>
     TestnetManager_createAccount (faucet g) a pk w
       = (Inr a, w\<lparr>chainState := AList.update a g (chainState w)\<rparr>)"
  by (simp add: TestnetManager_createAccount_def faucet_def ledger_createAccount_def)

lemma faucet_createAccount_exists:
  "map_of (chainState w) a \<noteq> None \<Longrightarrow>
     TestnetManager_createAccount (faucet g) a pk w = (Inl (Error ''the account exists''), w)"
  by (auto simp add: TestnetManager_createAccount_def faucet_def ledger_createAccount_def)

lemma faucet_send_delete:
  assumes "map_of c a = Some bal" "a \<noteq> r" "map_of c r = Some b"
  shows "ledger_signAndSend c (Some k) a a [DeleteAccount r]
           = (Inr \<lparr>status = StatusObject (Some []) None\<rparr>,
              AList.update r (b + bal) (AList.delete a c))"
  using assms by (simp add: ledger_signAndSend_def apply_action_def AList.delete_conv')

lemma faucet_Account_delete:
  assumes "getKey w a = Some k" "map_of (chainState w) a = Some bal" "a \<noteq> r"
    "map_of (chainState w) r = Some b"
  shows "Account_delete (faucet g) a r w
           = (Inr \<lparr>status = StatusObject (Some []) None\<rparr>,
              deleteKey a (w\<lparr>chainState := AList.update r (b + bal) (AList.delete a (chainState w)),
                             submitted := submitted w @ [(a, a, [DeleteAccount r])]\<rparr>))"
proof -
  have s: "signAndSendTransaction (faucet g) = ledger_signAndSend" by (simp add: faucet_def)
  have e: "executeTransaction (faucet g)
             (ManagedTransaction_deleteAccount r (createTransaction a a)) None w
           = (Inr \<lparr>status = StatusObject (Some []) None\<rparr>,
              w\<lparr>chainState := AList.update r (b + bal) (AList.delete a (chainState w)),
                submitted := submitted w @ [(a, a, [DeleteAccount r])]\<rparr>)"
    using assms faucet_send_delete [OF assms(2,3,4), of k]
    by (simp add: executeTransaction_def Let_def s ManagedTransaction_deleteAccount_def
        createTransaction_def Transaction_append_def)
  show ?thesis
    unfolding Account_delete_def signAndSend_cases e
    by (simp add: hasSuccessValue_def ManagedTransaction_deleteAccount_def createTransaction_def
        Transaction_append_def)
qed

lemma getKey_keyStore_setKey:
  "getKey (keyStore_setKey (networkId w) a k w) a = Some k"
  by (simp add: getKey_def keyStore_getKey_def keyStore_setKey_def networkId_def AList.update_conv')

lemma addFunds_faucet:
  assumes a: "addFunds (faucet g) w = (Inr (), w')"
    and b: "map_of (chainState w) (rootAccountId w) = Some b"
  shows "map_of (chainState w') (rootAccountId w) = Some (b + g)"
proof -
  let ?P = "faucet g"
  let ?t = "randomAccountId ?P (seed w) None None"
  let ?w1 = "w\<lparr>seed := Suc (seed w)\<rparr>"
  obtain k w2 where g: "getRootKey ?P ?w1 = (k, w2)" by (cases "getRootKey ?P ?w1")
  have c2: "chainState w2 = chainState w" using chainState_getRootKey [of ?P ?w1] g by simp
  have r2: "rootAccountId w2 = rootAccountId w"
    using getRootKey_keeps [of rootAccountId ?P ?w1] g by (simp add: manager_fieldD [of rootAccountId])
  let ?w3 = "keyStore_setKey (networkId w2) ?t k w2"
  have c3: "chainState ?w3 = chainState w" using c2 by (simp add: keyStore_setKey_def)
  have r3: "rootAccountId ?w3 = rootAccountId w"
    using r2 by (simp add: keyStore_setKey_keeps)
  have run: "addFunds ?P w
               = await (TestnetManager_createAccount ?P ?t (getPublicKey k))
                   (\<lambda>account w4.
                      await (Account_delete ?P account (rootAccountId w4))
                        (\<lambda>outcome w5. (Inr (), w5)) w4) ?w3"
    using g by (simp add: addFunds_def random_id_def)
  have t: "map_of (chainState w) ?t = None"
  proof (rule ccontr)
    assume "map_of (chainState w) ?t \<noteq> None"
    then have "TestnetManager_createAccount ?P ?t (getPublicKey k) ?w3
                 = (Inl (Error ''the account exists''), ?w3)"
      using faucet_createAccount_exists [of ?w3 ?t g] c3 by simp
    then have "fst (addFunds ?P w) = Inl (Error ''the account exists'')"
      unfolding run by (simp add: await_def)
    with a show False by simp
  qed
  with b have ne: "?t \<noteq> rootAccountId w" by auto
  let ?w4 = "?w3\<lparr>chainState := AList.update ?t g (chainState ?w3)\<rparr>"
  have cr: "TestnetManager_createAccount ?P ?t (getPublicKey k) ?w3 = (Inr ?t, ?w4)"
    using faucet_createAccount_new [of ?w3 ?t g] t c3 by simp
  have r4: "rootAccountId ?w4 = rootAccountId w"
    using r3 by (simp add: manager_fieldD [of rootAccountId])
  have k4: "getKey ?w4 ?t = Some k"
    using getKey_keyStore_setKey [of w2 ?t k] by simp
  have m4: "map_of (chainState ?w4) ?t = Some g" "map_of (chainState ?w4) (rootAccountId w) = Some b"
    using b ne c3 by (simp_all add: AList.update_conv')
  note d = faucet_Account_delete [OF k4 m4(1) ne m4(2), of g]
  have "chainState (snd (addFunds ?P w))
          = AList.update (rootAccountId w) (b + g) (AList.delete ?t (chainState ?w4))"
    unfolding run by (simp add: await_def cr r4 d del: World.simps)
  with a ne show ?thesis by (simp add: AList.update_conv')
qed

lemma faucet_queries:
  "accountExists (faucet g) c a = (map_of c a \<noteq> None)"
  "account_balance (faucet g) c a = ledger_balance c a"
  by (simp_all add: faucet_def)

text \<open>
  C2, as stated, fails: \<open>init\<close> tops the root account up once and does not look at the
  balance again.  With a creation service that grants 200 tokens and a configured root
  that is not yet on the chain, \<open>init\<close> returns with 400 tokens on the root account,
  which is below the threshold of 1000 tokens.
\<close>

theorem TestnetManager_init_below_threshold_counterexample:
  "TestnetManager_init (faucet (toYocto 200)) configured_world
     = (Inr (), funded_root_world (toYocto 200)) \<and>
   rootAccountId (funded_root_world (toYocto 200)) = ''root.testnet'' \<and>
   account_balance (faucet (toYocto 200)) (chainState (funded_root_world (toYocto 200)))
     ''root.testnet'' = Inr (toYocto 400) \<and>
   toYocto 400 < toYocto 1000"
proof -
  have l: "toYocto 200 < toYocto 1000" by (simp add: toYocto_def)
  have "account_balance (faucet (toYocto 200)) (chainState (funded_root_world (toYocto 200)))
     ''root.testnet'' = Inr (toYocto 400)"
    by (simp add: faucet_def ledger_balance_def funded_root_world_def toYocto_def)
  moreover have "rootAccountId (funded_root_world (toYocto 200)) = ''root.testnet''"
    by (simp add: funded_root_world_def configured_world_def testnet_world_def rootAccountId_def
        config_rootAccount_def)
  moreover have "toYocto 400 < toYocto 1000" by (simp add: toYocto_def)
  ultimately show ?thesis using init_configured_run [OF l] by simp
qed

text \<open>
  C2, amended.  On the ledger with a creation service that grants \<open>g\<close>: after
  \<open>TestnetManager.init\<close> returns, the resolved root account exists on the chain.  Let \<open>b\<close>
  be its balance when \<open>init\<close> looked at it, which is \<open>g\<close> when the account had to be
  created.  The available balance is \<open>b\<close> when \<open>b\<close> is at least 1000 tokens, and \<open>b + g\<close>
  otherwise, after one top-up.  So it is at least 1000 tokens exactly when \<open>b\<close> or \<open>b + g\<close>
  is.
\<close>

theorem TestnetManager_init_single_top_up:
  assumes i: "TestnetManager_init (faucet g) w = (Inr (), w')"
  shows "let w1 = snd (initRootAccount (faucet g) w);
             r = rootAccountId w1;
             b = (case map_of (chainState w1) r of Some x \<Rightarrow> x | None \<Rightarrow> g)
         in rootAccountId w' = r \<and>
            accountExists (faucet g) (chainState w') r \<and>
            account_balance (faucet g) (chainState w') r
              = Inr (if b < toYocto 1000 then b + g else b)"
proof -
  let ?P = "faucet g"
  obtain r0 w1 where i0: "initRootAccount ?P w = (r0, w1)" by (cases "initRootAccount ?P w")
  define r where "r = rootAccountId w1"
  define b where "b = (case map_of (chainState w1) r of Some x \<Rightarrow> x | None \<Rightarrow> g)"
  let ?ensure = "\<lambda>w. if \<not> accountExists ?P (chainState w) r
              then (case getRootKey ?P w of (keyPair, w2) \<Rightarrow>
                      await (TestnetManager_createAccount ?P r (getPublicKey keyPair))
                        (\<lambda>account w3. (Inr (), w3))
                        (keyStore_setKey (networkId w2) r keyPair w2))
              else (Inr (), w)"
  let ?fund = "\<lambda>u w4. await (Account_balance ?P (rootAccountId w4))
              (\<lambda>available w5.
                 if available < toYocto 1000 then addFunds ?P w5 else (Inr (), w5)) w4"
  from i have c: "createAndFundAccount ?P w = (Inr (), w')"
    by (cases "createAndFundAccount ?P w"; cases "fst (createAndFundAccount ?P w)")
       (auto simp: TestnetManager_init_def await_def)
  have run: "createAndFundAccount ?P w
               = (case r0 of Inl e \<Rightarrow> (Inl e, w1) | Inr u \<Rightarrow> await ?ensure ?fund w1)"
    using i0 by (simp add: createAndFundAccount_def await_def r_def split: sum.splits)
  with c obtain u where r0: "r0 = Inr u" by (cases r0) auto
  with run c have c1: "await ?ensure ?fund w1 = (Inr (), w')" by simp
  obtain w4 where e: "?ensure w1 = (Inr (), w4)" and e4: "map_of (chainState w4) r = Some b"
    and r4: "rootAccountId w4 = r"
  proof (cases "map_of (chainState w1) r")
    case (Some x)
    then have "?ensure w1 = (Inr (), w1)" "map_of (chainState w1) r = Some b"
      by (simp_all add: faucet_queries b_def)
    with that r_def show ?thesis by blast
  next
    case None
    obtain k w2 where g: "getRootKey ?P w1 = (k, w2)" by (cases "getRootKey ?P w1")
    have c2: "chainState w2 = chainState w1" using chainState_getRootKey [of ?P w1] g by simp
    have r2: "rootAccountId w2 = r"
      using getRootKey_keeps [of rootAccountId ?P w1] g by (simp add: r_def)
    let ?w3 = "keyStore_setKey (networkId w2) r k w2"
    have c3: "chainState ?w3 = chainState w1" using c2 by (simp add: keyStore_setKey_def)
    have r3: "rootAccountId ?w3 = r" using r2 by (simp add: keyStore_setKey_keeps)
    let ?w4 = "?w3\<lparr>chainState := AList.update r g (chainState ?w3)\<rparr>"
    have cr: "TestnetManager_createAccount ?P r (getPublicKey k) ?w3 = (Inr r, ?w4)"
      using faucet_createAccount_new [of ?w3 r g] None c3 by simp
    have "?ensure w1 = (Inr (), ?w4)"
      using None g cr by (simp add: faucet_queries await_def)
    moreover have "map_of (chainState ?w4) r = Some b"
      using None by (simp add: b_def AList.update_conv')
    moreover have "rootAccountId ?w4 = r"
      using r3 by (simp add: manager_fieldD [of rootAccountId])
    ultimately show ?thesis using that by blast
  qed
  have bal: "Account_balance ?P (rootAccountId w4) w4 = (Inr b, w4)"
    using e4 r4 by (simp add: Account_balance_def balance_def faucet_queries ledger_balance_def)
  have f: "(if b < toYocto 1000 then addFunds ?P w4 else (Inr (), w4)) = (Inr (), w')"
    using c1 e bal by (simp add: await_def)
  have "rootAccountId w' = r \<and> map_of (chainState w') r = Some (if b < toYocto 1000 then b + g else b)"
  proof (cases "b < toYocto 1000")
    case True
    with f have a: "addFunds ?P w4 = (Inr (), w')" by simp
    from addFunds_faucet [OF a] e4 r4 have "map_of (chainState w') r = Some (b + g)" by simp
    moreover have "rootAccountId w' = r"
      using addFunds_keeps [of rootAccountId ?P w4] a r4 by simp
    ultimately show ?thesis using True by simp
  next
    case False
    with f e4 r4 show ?thesis by simp
  qed
  then show ?thesis
    using i0 by (simp add: Let_def r_def [symmetric] b_def [symmetric] faucet_queries ledger_balance_def)
qed

theorem TestnetManager_init_single_top_up_witness:
  "TestnetManager_init (faucet (toYocto 600)) configured_world
     = (Inr (), funded_root_world (toYocto 600)) \<and>
   rootAccountId (funded_root_world (toYocto 600)) = ''root.testnet'' \<and>
   accountExists (faucet (toYocto 600)) (chainState (funded_root_world (toYocto 600)))
     ''root.testnet'' \<and>
   account_balance (faucet (toYocto 600)) (chainState (funded_root_world (toYocto 600)))
     ''root.testnet'' = Inr (toYocto 1200) \<and>
   toYocto 1000 \<le> toYocto 1200"
proof -
  have l: "toYocto 600 < toYocto 1000" by (simp add: toYocto_def)
  note h = init_configured_run [OF l]
  have w1: "snd (initRootAccount (faucet (toYocto 600)) configured_world) = configured_world"
    by (simp add: initRootAccount_def rootAccount_configured_def configured_world_def)
  have r: "rootAccountId configured_world = ''root.testnet''"
    by (simp add: configured_world_def testnet_world_def rootAccountId_def config_rootAccount_def)
  have c: "chainState configured_world = []"
    by (simp add: configured_world_def testnet_world_def)
  have s: "toYocto 600 + toYocto 600 = toYocto 1200" "toYocto 1000 \<le> toYocto 1200"
    by (simp_all add: toYocto_def)
  from TestnetManager_init_single_top_up [OF h] l s h show ?thesis
    by (simp add: Let_def w1 r c)
qed

end
